theory Spec2Isabelle
  imports Main
begin

section \<open>Data model (lib/types.ts)\<close>

text \<open>
  The two interfaces of \<^verbatim>\<open>lib/types.ts\<close>. The field \<^verbatim>\<open>id\<close> of a player is written
  \<open>id'\<close>, since \<open>id\<close> is the identity function of HOL. Timestamps are the epoch
  milliseconds returned by \<^verbatim>\<open>Date.now()\<close>: integers, on which the subtraction of
  JavaScript numbers is exact.
\<close>

record Player =
  id' :: string
  name :: string
  vote :: "string option"
  hasVoted :: bool
  lastSeen :: int

record GameState =
  players :: "Player list"
  revealed :: bool
  roomId :: string
  createdAt :: int
  lastActivity :: int

section \<open>The environment: clock, key-value service, in-process map\<close>

text \<open>
  A record of the key-value service holds the value of the last \<^verbatim>\<open>kv.set\<close> and the
  expiry, in seconds, that this call asked for (\<open>None\<close>: no expiry was asked for). The
  service stores what it is sent, serialised: a value.

  The \<^verbatim>\<open>Map\<close> of \<^verbatim>\<open>lib/redis-mock.ts\<close> stores objects, not values: \<^verbatim>\<open>rooms.set\<close> keeps
  the object of its caller and \<^verbatim>\<open>rooms.get\<close> hands that same object out, so an object
  may be held under two keys, or by a caller and by the map, and an assignment to it
  shows everywhere. Hence a heap: a room object is a reference into \<open>objs\<close>, its
  \<^verbatim>\<open>players\<close> field is a reference into \<open>arrs\<close>, the heap of arrays, and the map holds
  references to room objects. References from \<open>next_ref\<close> on are the ones not yet
  handed out. The participants in an array are values: no function of the module
  assigns to a field of a participant.

  The world of a request: the content of the key-value service, an oracle telling which
  calls of the service fail (by the number of the call), the map and the heap of
  \<^verbatim>\<open>lib/redis-mock.ts\<close>, and the successive readings of \<^verbatim>\<open>Date.now()\<close> (by the number
  of the reading). Nothing is assumed about the readings: they need not increase.
\<close>

record entry =
  val :: GameState
  ex :: "nat option"

type_synonym ref = nat

record room_obj =
  o_players :: ref
  o_revealed :: bool
  o_roomId :: string
  o_createdAt :: int
  o_lastActivity :: int

record world =
  kv :: "string \<rightharpoonup> entry"
  kv_fails :: "nat \<Rightarrow> bool"
  kv_calls :: nat
  rooms :: "string \<rightharpoonup> ref"
  objs :: "ref \<Rightarrow> room_obj"
  arrs :: "ref \<Rightarrow> Player list"
  next_ref :: ref
  clock :: "nat \<Rightarrow> int"
  tick :: nat

text \<open>
  What a room object reads at a moment, as a value: this is what serialising the object
  gives. \<open>stored w k\<close> is what the object held under the key \<open>k\<close> reads.
\<close>

definition room_of :: "world \<Rightarrow> ref \<Rightarrow> GameState" where
  "room_of w r =
     \<lparr>players = arrs w (o_players (objs w r)), revealed = o_revealed (objs w r),
      roomId = o_roomId (objs w r), createdAt = o_createdAt (objs w r),
      lastActivity = o_lastActivity (objs w r)\<rparr>"

definition stored :: "world \<Rightarrow> string \<Rightarrow> GameState option" where
  "stored w k = map_option (room_of w) (rooms w k)"

datatype exn = KvError | SyntaxError

text \<open>
  An asynchronous function either returns a value or throws; in both cases the world it
  has changed so far stays changed.
\<close>

type_synonym 'a io = "world \<Rightarrow> (exn + 'a) \<times> world"

definition returnE :: "'a \<Rightarrow> 'a io" where
  "returnE a w = (Inr a, w)"

definition throwE :: "exn \<Rightarrow> 'a io" where
  "throwE e w = (Inl e, w)"

definition bindE :: "'a io \<Rightarrow> ('a \<Rightarrow> 'b io) \<Rightarrow> 'b io" where
  "bindE m f w = (case m w of (Inl e, w') \<Rightarrow> (Inl e, w') | (Inr a, w') \<Rightarrow> f a w')"

definition Date_now :: "int io" where
  "Date_now w = (Inr (clock w (tick w)), w\<lparr>tick := Suc (tick w)\<rparr>)"

text \<open>
  Array.prototype.map with a callback that may read the clock: the elements are visited
  from left to right.
\<close>

fun mapE :: "('a \<Rightarrow> 'b io) \<Rightarrow> 'a list \<Rightarrow> 'b list io" where
  "mapE f [] = returnE []"
| "mapE f (x # xs) = bindE (f x) (\<lambda>y. bindE (mapE f xs) (\<lambda>ys. returnE (y # ys)))"

text \<open>
  Array.prototype.findIndex: the index of the first element that satisfies the
  predicate, \<open>-1\<close> when there is none.
\<close>

fun findIndex_from :: "('a \<Rightarrow> bool) \<Rightarrow> 'a list \<Rightarrow> int \<Rightarrow> int" where
  "findIndex_from P [] i = - 1"
| "findIndex_from P (x # xs) i = (if P x then i else findIndex_from P xs (i + 1))"

definition findIndex :: "('a \<Rightarrow> bool) \<Rightarrow> 'a list \<Rightarrow> int" where
  "findIndex P xs = findIndex_from P xs 0"

text \<open>
  Modelled from the spec: the client of the key-value service (\<^verbatim>\<open>@vercel/kv\<close>, its
  \<^verbatim>\<open>kv.get\<close> and \<^verbatim>\<open>kv.set\<close> with the option \<^verbatim>\<open>ex\<close>) is an external collaborator that
  is not part of the sources; the spec assumes get and set-with-expiry semantics of it.
  A call fails when the oracle says so, and then changes nothing. The deletion of a
  record by the service once its expiry has passed is an event of the service, outside
  these functions: after it the key is simply absent.
\<close>

definition kv_get :: "string \<Rightarrow> GameState option io" where
  "kv_get k w =
     (let w' = w\<lparr>kv_calls := Suc (kv_calls w)\<rparr> in
      if kv_fails w (kv_calls w) then (Inl KvError, w')
      else (Inr (map_option val (kv w k)), w'))"

definition kv_set :: "string \<Rightarrow> GameState \<Rightarrow> nat \<Rightarrow> unit io" where
  "kv_set k v secs w =
     (let w' = w\<lparr>kv_calls := Suc (kv_calls w)\<rparr> in
      if kv_fails w (kv_calls w) then (Inl KvError, w')
      else (Inr (), w'\<lparr>kv := (kv w)(k \<mapsto> \<lparr>val = v, ex = Some secs\<rparr>)\<rparr>))"

text \<open>
  The \<^verbatim>\<open>Map\<close> of \<^verbatim>\<open>lib/redis-mock.ts\<close>: \<^verbatim>\<open>rooms.get\<close> returns the object held under the
  key, \<^verbatim>\<open>rooms.set\<close> puts the object of its caller under the key. Neither fails, and a
  \<^verbatim>\<open>Map\<close> has no expiry.
\<close>

definition rooms_get :: "string \<Rightarrow> ref option io" where
  "rooms_get k w = (Inr (rooms w k), w)"

definition rooms_set :: "string \<Rightarrow> ref \<Rightarrow> unit io" where
  "rooms_set k r w = (Inr (), w\<lparr>rooms := (rooms w)(k \<mapsto> r)\<rparr>)"

text \<open>
  The heap. An object literal and an array that is assigned to a field get the next
  reference; an array that is only read (the result of \<^verbatim>\<open>filter\<close> when nothing was
  filtered out) needs none. Reading and assigning the fields of a room object, and the
  two assignments in place to its array of participants (\<^verbatim>\<open>room.players[i] = player\<close>
  and \<^verbatim>\<open>room.players.push(player)\<close>), act on what the reference holds.
\<close>

definition new_array :: "Player list \<Rightarrow> ref io" where
  "new_array ps w =
     (Inr (next_ref w), w\<lparr>arrs := (arrs w)(next_ref w := ps), next_ref := Suc (next_ref w)\<rparr>)"

definition new_object :: "room_obj \<Rightarrow> ref io" where
  "new_object obj w =
     (Inr (next_ref w), w\<lparr>objs := (objs w)(next_ref w := obj), next_ref := Suc (next_ref w)\<rparr>)"

definition get_players :: "ref \<Rightarrow> Player list io" where
  "get_players r w = (Inr (arrs w (o_players (objs w r))), w)"

definition get_revealed :: "ref \<Rightarrow> bool io" where
  "get_revealed r w = (Inr (o_revealed (objs w r)), w)"

definition set_players :: "ref \<Rightarrow> ref \<Rightarrow> unit io" where
  "set_players r a w = (Inr (), w\<lparr>objs := (objs w)(r := (objs w r)\<lparr>o_players := a\<rparr>)\<rparr>)"

definition set_revealed :: "ref \<Rightarrow> bool \<Rightarrow> unit io" where
  "set_revealed r b w = (Inr (), w\<lparr>objs := (objs w)(r := (objs w r)\<lparr>o_revealed := b\<rparr>)\<rparr>)"

definition set_lastActivity :: "ref \<Rightarrow> int \<Rightarrow> unit io" where
  "set_lastActivity r t w =
     (Inr (), w\<lparr>objs := (objs w)(r := (objs w r)\<lparr>o_lastActivity := t\<rparr>)\<rparr>)"

definition players_assign_at :: "ref \<Rightarrow> nat \<Rightarrow> Player \<Rightarrow> unit io" where
  "players_assign_at r i p w =
     (let a = o_players (objs w r) in
      (Inr (), w\<lparr>arrs := (arrs w)(a := (arrs w a)[i := p])\<rparr>))"

definition players_push :: "ref \<Rightarrow> Player \<Rightarrow> unit io" where
  "players_push r p w =
     (let a = o_players (objs w r) in
      (Inr (), w\<lparr>arrs := (arrs w)(a := arrs w a @ [p])\<rparr>))"

definition room_key :: "string \<Rightarrow> string" where
  "room_key rid = ''room:'' @ rid"

section \<open>lib/redis.ts\<close>

definition ROOM_EXPIRY :: nat where
  "ROOM_EXPIRY = 60 * 60 * 24"

definition PLAYER_TIMEOUT :: int where
  "PLAYER_TIMEOUT = 60 * 5"

text \<open>
  \<^verbatim>\<open>updateRoom\<close> assigns \<^verbatim>\<open>lastActivity\<close> on the object of its caller; the model returns
  the object after the assignment, which is what the caller goes on with.
\<close>

definition updateRoom :: "string \<Rightarrow> GameState \<Rightarrow> GameState io" where
  "updateRoom rid state =
     bindE Date_now (\<lambda>now.
       let state' = state\<lparr>lastActivity := now\<rparr> in
       bindE (kv_set (room_key rid) state' ROOM_EXPIRY) (\<lambda>_. returnE state'))"

definition getRoom :: "string \<Rightarrow> GameState option io" where
  "getRoom rid =
     bindE (kv_get (room_key rid)) (\<lambda>r.
       case r of
         None \<Rightarrow> returnE None
       | Some room \<Rightarrow>
           bindE Date_now (\<lambda>now.
             let activePlayers =
                   filter (\<lambda>p. now - lastSeen p < PLAYER_TIMEOUT * 1000) (players room) in
             if length activePlayers \<noteq> length (players room)
             then bindE (updateRoom rid (room\<lparr>players := activePlayers\<rparr>))
                    (\<lambda>room'. returnE (Some room'))
             else returnE (Some room)))"

definition createRoom :: "string \<Rightarrow> GameState io" where
  "createRoom rid =
     bindE Date_now (\<lambda>t1.
     bindE Date_now (\<lambda>t2.
       let room = \<lparr>players = [], revealed = False, roomId = rid,
                    createdAt = t1, lastActivity = t2\<rparr> in
       bindE (kv_set (room_key rid) room ROOM_EXPIRY) (\<lambda>_. returnE room)))"

definition addPlayer :: "string \<Rightarrow> Player \<Rightarrow> GameState io" where
  "addPlayer rid player =
     bindE (getRoom rid) (\<lambda>r.
     bindE (case r of None \<Rightarrow> createRoom rid | Some room \<Rightarrow> returnE room) (\<lambda>room.
       let existingIndex = findIndex (\<lambda>p. id' p = id' player) (players room) in
       bindE Date_now (\<lambda>now.
         let ps = (if existingIndex \<ge> 0
                   then (players room)[nat existingIndex := player\<lparr>lastSeen := now\<rparr>]
                   else players room @ [player\<lparr>lastSeen := now\<rparr>]) in
         updateRoom rid (room\<lparr>players := ps\<rparr>))))"

definition vote_cb :: "string \<Rightarrow> string \<Rightarrow> Player \<Rightarrow> Player io" where
  "vote_cb pid v p =
     (if id' p = pid
      then bindE Date_now (\<lambda>now.
             returnE (p\<lparr>vote := Some v, hasVoted := True, lastSeen := now\<rparr>))
      else returnE p)"

definition updatePlayerVote :: "string \<Rightarrow> string \<Rightarrow> string \<Rightarrow> GameState option io" where
  "updatePlayerVote rid pid v =
     bindE (getRoom rid) (\<lambda>r.
       case r of
         None \<Rightarrow> returnE None
       | Some room \<Rightarrow>
           bindE (mapE (vote_cb pid v) (players room)) (\<lambda>ps.
           bindE (updateRoom rid (room\<lparr>players := ps\<rparr>)) (\<lambda>room'. returnE (Some room'))))"

definition toggleReveal :: "string \<Rightarrow> GameState option io" where
  "toggleReveal rid =
     bindE (getRoom rid) (\<lambda>r.
       case r of
         None \<Rightarrow> returnE None
       | Some room \<Rightarrow>
           bindE (updateRoom rid (room\<lparr>revealed := \<not> revealed room\<rparr>))
             (\<lambda>room'. returnE (Some room')))"

definition reset_cb :: "Player \<Rightarrow> Player io" where
  "reset_cb p =
     bindE Date_now (\<lambda>now. returnE (p\<lparr>vote := None, hasVoted := False, lastSeen := now\<rparr>))"

definition resetVotes :: "string \<Rightarrow> GameState option io" where
  "resetVotes rid =
     bindE (getRoom rid) (\<lambda>r.
       case r of
         None \<Rightarrow> returnE None
       | Some room \<Rightarrow>
           bindE (mapE reset_cb (players room)) (\<lambda>ps.
           bindE (updateRoom rid (room\<lparr>players := ps, revealed := False\<rparr>))
             (\<lambda>room'. returnE (Some room'))))"

definition heartbeat_cb :: "string \<Rightarrow> Player \<Rightarrow> Player io" where
  "heartbeat_cb pid p =
     (if id' p = pid
      then bindE Date_now (\<lambda>now. returnE (p\<lparr>lastSeen := now\<rparr>))
      else returnE p)"

definition updatePlayerHeartbeat :: "string \<Rightarrow> string \<Rightarrow> unit io" where
  "updatePlayerHeartbeat rid pid =
     bindE (getRoom rid) (\<lambda>r.
       case r of
         None \<Rightarrow> returnE ()
       | Some room \<Rightarrow>
           bindE (mapE (heartbeat_cb pid) (players room)) (\<lambda>ps.
           bindE (updateRoom rid (room\<lparr>players := ps\<rparr>)) (\<lambda>_. returnE ())))"

section \<open>lib/redis-mock.ts\<close>

text \<open>
  The functions of the in-memory module have the names of those of \<^verbatim>\<open>lib/redis.ts\<close>;
  here they carry the suffix \<open>_mock\<close>. A room is a reference to its object: the functions
  take and return references, as the code takes and returns objects. The constant
  \<^verbatim>\<open>ROOM_EXPIRY\<close> is declared in the module and used nowhere in it.
\<close>

definition updateRoom_mock :: "string \<Rightarrow> ref \<Rightarrow> unit io" where
  "updateRoom_mock rid state =
     bindE Date_now (\<lambda>now.
     bindE (set_lastActivity state now) (\<lambda>_.
       rooms_set (room_key rid) state))"

definition getRoom_mock :: "string \<Rightarrow> ref option io" where
  "getRoom_mock rid =
     bindE (rooms_get (room_key rid)) (\<lambda>r.
       case r of
         None \<Rightarrow> returnE None
       | Some room \<Rightarrow>
           bindE Date_now (\<lambda>now.
           bindE (get_players room) (\<lambda>ps.
             let activePlayers =
                   filter (\<lambda>p. now - lastSeen p < PLAYER_TIMEOUT * 1000) ps in
             if length activePlayers \<noteq> length ps
             then bindE (new_array activePlayers) (\<lambda>a.
                  bindE (set_players room a) (\<lambda>_.
                  bindE (updateRoom_mock rid room) (\<lambda>_. returnE (Some room))))
             else returnE (Some room))))"

definition createRoom_mock :: "string \<Rightarrow> ref io" where
  "createRoom_mock rid =
     bindE (new_array []) (\<lambda>a.
     bindE Date_now (\<lambda>t1.
     bindE Date_now (\<lambda>t2.
     bindE (new_object \<lparr>o_players = a, o_revealed = False, o_roomId = rid,
                        o_createdAt = t1, o_lastActivity = t2\<rparr>) (\<lambda>room.
     bindE (rooms_set (room_key rid) room) (\<lambda>_. returnE room)))))"

definition addPlayer_mock :: "string \<Rightarrow> Player \<Rightarrow> ref io" where
  "addPlayer_mock rid player =
     bindE (getRoom_mock rid) (\<lambda>r.
     bindE (case r of None \<Rightarrow> createRoom_mock rid | Some room \<Rightarrow> returnE room) (\<lambda>room.
     bindE (get_players room) (\<lambda>ps.
       let existingIndex = findIndex (\<lambda>p. id' p = id' player) ps in
       bindE (if existingIndex \<ge> 0
              then players_assign_at room (nat existingIndex) player
              else players_push room player) (\<lambda>_.
       bindE (updateRoom_mock rid room) (\<lambda>_. returnE room)))))"

definition updatePlayerVote_mock :: "string \<Rightarrow> string \<Rightarrow> string \<Rightarrow> ref option io" where
  "updatePlayerVote_mock rid pid v =
     bindE (getRoom_mock rid) (\<lambda>r.
       case r of
         None \<Rightarrow> returnE None
       | Some room \<Rightarrow>
           bindE (get_players room) (\<lambda>ps.
           bindE (mapE (vote_cb pid v) ps) (\<lambda>ps'.
           bindE (new_array ps') (\<lambda>a.
           bindE (set_players room a) (\<lambda>_.
           bindE (updateRoom_mock rid room) (\<lambda>_. returnE (Some room)))))))"

definition toggleReveal_mock :: "string \<Rightarrow> ref option io" where
  "toggleReveal_mock rid =
     bindE (getRoom_mock rid) (\<lambda>r.
       case r of
         None \<Rightarrow> returnE None
       | Some room \<Rightarrow>
           bindE (get_revealed room) (\<lambda>b.
           bindE (set_revealed room (\<not> b)) (\<lambda>_.
           bindE (updateRoom_mock rid room) (\<lambda>_. returnE (Some room)))))"

definition resetVotes_mock :: "string \<Rightarrow> ref option io" where
  "resetVotes_mock rid =
     bindE (getRoom_mock rid) (\<lambda>r.
       case r of
         None \<Rightarrow> returnE None
       | Some room \<Rightarrow>
           bindE (get_players room) (\<lambda>ps.
           bindE (mapE reset_cb ps) (\<lambda>ps'.
           bindE (new_array ps') (\<lambda>a.
           bindE (set_players room a) (\<lambda>_.
           bindE (set_revealed room False) (\<lambda>_.
           bindE (updateRoom_mock rid room) (\<lambda>_. returnE (Some room))))))))"

definition updatePlayerHeartbeat_mock :: "string \<Rightarrow> string \<Rightarrow> unit io" where
  "updatePlayerHeartbeat_mock rid pid =
     bindE (getRoom_mock rid) (\<lambda>r.
       case r of
         None \<Rightarrow> returnE ()
       | Some room \<Rightarrow>
           bindE (get_players room) (\<lambda>ps.
           bindE (mapE (heartbeat_cb pid) ps) (\<lambda>ps'.
           bindE (new_array ps') (\<lambda>a.
           bindE (set_players room a) (\<lambda>_.
           bindE (updateRoom_mock rid room) (\<lambda>_. returnE ()))))))"

section \<open>app/api/rooms/[roomId]/route.ts\<close>

text \<open>
  The module picks its backend once, from the environment: \<open>useRealRedis\<close>. The body of
  a POST request is the result of \<^verbatim>\<open>request.json()\<close>: \<open>None\<close> when that call throws
  (the body is not JSON), otherwise the four fields the handler reads, as the strings
  that the types of the callees expect. A response is its status and its JSON payload:
  \<^verbatim>\<open>NextResponse.json(room)\<close> serialises the room at once, which for a room of the
  in-memory module is what its object reads at that moment (\<open>json_of\<close>). The handler also
  logs the error it catches; the log is not part of the model.
\<close>

record body =
  action :: string
  playerId :: string
  playerName :: string
  vote_body :: string

datatype payload = RoomJson GameState | ErrorJson string | SuccessJson

record response =
  status :: nat
  json :: payload

definition catchE :: "'a io \<Rightarrow> (exn \<Rightarrow> 'a io) \<Rightarrow> 'a io" where
  "catchE m h w = (case m w of (Inl e, w') \<Rightarrow> h e w' | (Inr a, w') \<Rightarrow> (Inr a, w'))"

definition json_of :: "ref \<Rightarrow> GameState io" where
  "json_of r w = (Inr (room_of w r), w)"

definition json_of_opt :: "ref option \<Rightarrow> GameState option io" where
  "json_of_opt r w = (Inr (map_option (room_of w) r), w)"

definition room_or_404 :: "GameState option \<Rightarrow> response" where
  "room_or_404 r =
     (case r of
        None \<Rightarrow> \<lparr>status = 404, json = ErrorJson ''Room not found''\<rparr>
      | Some room \<Rightarrow> \<lparr>status = 200, json = RoomJson room\<rparr>)"

text \<open>
  The functions of the backend in use, with their results as the handlers use them:
  serialised, or tested for null.
\<close>

definition redis_getRoom :: "bool \<Rightarrow> string \<Rightarrow> GameState option io" where
  "redis_getRoom useRealRedis rid =
     (if useRealRedis then getRoom rid else bindE (getRoom_mock rid) json_of_opt)"

definition redis_addPlayer :: "bool \<Rightarrow> string \<Rightarrow> Player \<Rightarrow> GameState io" where
  "redis_addPlayer useRealRedis rid player =
     (if useRealRedis then addPlayer rid player
      else bindE (addPlayer_mock rid player) json_of)"

definition redis_updatePlayerVote ::
  "bool \<Rightarrow> string \<Rightarrow> string \<Rightarrow> string \<Rightarrow> GameState option io" where
  "redis_updatePlayerVote useRealRedis rid pid v =
     (if useRealRedis then updatePlayerVote rid pid v
      else bindE (updatePlayerVote_mock rid pid v) json_of_opt)"

definition redis_toggleReveal :: "bool \<Rightarrow> string \<Rightarrow> GameState option io" where
  "redis_toggleReveal useRealRedis rid =
     (if useRealRedis then toggleReveal rid else bindE (toggleReveal_mock rid) json_of_opt)"

definition redis_resetVotes :: "bool \<Rightarrow> string \<Rightarrow> GameState option io" where
  "redis_resetVotes useRealRedis rid =
     (if useRealRedis then resetVotes rid else bindE (resetVotes_mock rid) json_of_opt)"

definition redis_updatePlayerHeartbeat :: "bool \<Rightarrow> string \<Rightarrow> string \<Rightarrow> unit io" where
  "redis_updatePlayerHeartbeat useRealRedis rid pid =
     (if useRealRedis then updatePlayerHeartbeat rid pid
      else updatePlayerHeartbeat_mock rid pid)"

definition GET :: "bool \<Rightarrow> string \<Rightarrow> response io" where
  "GET useRealRedis rid =
     bindE (redis_getRoom useRealRedis rid) (\<lambda>room.
       returnE (room_or_404 room))"

definition POST :: "bool \<Rightarrow> string \<Rightarrow> body option \<Rightarrow> response io" where
  "POST useRealRedis rid req =
     (case req of
        None \<Rightarrow> throwE SyntaxError
      | Some b \<Rightarrow>
          catchE
            (if action b = ''join'' then
               bindE Date_now (\<lambda>now.
                 let player = \<lparr>id' = playerId b, name = playerName b, vote = None,
                                hasVoted = False, lastSeen = now\<rparr> in
                 bindE (redis_addPlayer useRealRedis rid player)
                   (\<lambda>room. returnE \<lparr>status = 200, json = RoomJson room\<rparr>))
             else if action b = ''vote'' then
               bindE (redis_updatePlayerVote useRealRedis rid (playerId b) (vote_body b))
                 (\<lambda>room. returnE (room_or_404 room))
             else if action b = ''reveal'' then
               bindE (redis_toggleReveal useRealRedis rid)
                 (\<lambda>room. returnE (room_or_404 room))
             else if action b = ''reset'' then
               bindE (redis_resetVotes useRealRedis rid)
                 (\<lambda>room. returnE (room_or_404 room))
             else if action b = ''heartbeat'' then
               bindE (redis_updatePlayerHeartbeat useRealRedis rid (playerId b))
                 (\<lambda>_. returnE \<lparr>status = 200, json = SuccessJson\<rparr>)
             else returnE \<lparr>status = 400, json = ErrorJson ''Invalid action''\<rparr>)
            (\<lambda>error. returnE \<lparr>status = 500, json = ErrorJson ''Internal server error''\<rparr>))"

section \<open>Requests served in sequence\<close>

text \<open>
  The requests of the route: a GET of a room, and a POST to a room with the result of
  parsing its body. \<open>handle\<close> is the world after one request, \<open>serve\<close> the world after
  a sequence of requests served one after the other.
\<close>

datatype request = Fetch string | Submit string "body option"

fun handle :: "bool \<Rightarrow> request \<Rightarrow> world \<Rightarrow> world" where
  "handle u (Fetch rid) w = snd (GET u rid w)"
| "handle u (Submit rid req) w = snd (POST u rid req w)"

fun serve :: "bool \<Rightarrow> request list \<Rightarrow> world \<Rightarrow> world" where
  "serve u [] w = w"
| "serve u (q # qs) w = serve u qs (handle u q w)"

section \<open>Auxiliary definitions for the proofs\<close>

subsection \<open>The callbacks of map\<close>

text \<open>
  The three callbacks passed to \<^verbatim>\<open>map\<close> have one shape: an element that is selected
  is rewritten with a fresh reading of the clock, the others are returned as they are.
  \<open>stamp_from\<close> is the list that \<open>mapE\<close> computes with such a callback, given the
  readings of the clock and the number of the next reading.
\<close>

definition stamp_cb :: "('a \<Rightarrow> bool) \<Rightarrow> (int \<Rightarrow> 'a \<Rightarrow> 'a) \<Rightarrow> 'a \<Rightarrow> 'a io" where
  "stamp_cb sel upd p =
     (if sel p then bindE Date_now (\<lambda>now. returnE (upd now p)) else returnE p)"

fun stamp_from ::
  "(nat \<Rightarrow> int) \<Rightarrow> nat \<Rightarrow> ('a \<Rightarrow> bool) \<Rightarrow> (int \<Rightarrow> 'a \<Rightarrow> 'a) \<Rightarrow> 'a list \<Rightarrow> 'a list" where
  "stamp_from c t sel upd [] = []"
| "stamp_from c t sel upd (p # ps) =
     (if sel p then upd (c t) p # stamp_from c (Suc t) sel upd ps
      else p # stamp_from c t sel upd ps)"

subsection \<open>Unique identifiers\<close>

text \<open>
  The invariant: in every stored room, of the key-value service and of the in-memory
  map, the identifiers of the participants are pairwise distinct.
\<close>

definition uniq_ids :: "world \<Rightarrow> bool" where
  "uniq_ids w \<longleftrightarrow>
     (\<forall>k e. kv w k = Some e \<longrightarrow> distinct (map id' (players (val e))))
     \<and> (\<forall>k g. stored w k = Some g \<longrightarrow> distinct (map id' (players g)))"

text \<open>
  \<open>keeps m Q\<close>: from a world that satisfies the invariant, \<open>m\<close> ends in a world that
  satisfies it, whether it returns or throws, and a value it returns satisfies \<open>Q\<close>.
\<close>

definition keeps :: "'a io \<Rightarrow> ('a \<Rightarrow> bool) \<Rightarrow> bool" where
  "keeps m Q \<longleftrightarrow>
     (\<forall>w r w'. uniq_ids w \<longrightarrow> m w = (r, w') \<longrightarrow> uniq_ids w' \<and> (\<forall>a. r = Inr a \<longrightarrow> Q a))"

text \<open>A room whose participants have pairwise distinct identifiers.\<close>

abbreviation ok_room :: "GameState \<Rightarrow> bool" where
  "ok_room room \<equiv> distinct (map id' (players room))"

subsection \<open>Comparing the two modules\<close>

text \<open>
  The map and its heap are in order when no object is held under two keys, and the
  objects the map holds and their arrays have references that were handed out.
\<close>

definition heap_ok :: "world \<Rightarrow> bool" where
  "heap_ok w \<longleftrightarrow>
     (\<forall>k k' r. rooms w k = Some r \<longrightarrow> rooms w k' = Some r \<longrightarrow> k = k')
     \<and> (\<forall>k r. rooms w k = Some r \<longrightarrow> r < next_ref w \<and> o_players (objs w r) < next_ref w)"

text \<open>
  The outcomes of a function of \<^verbatim>\<open>lib/redis.ts\<close> and of its namesake of
  \<^verbatim>\<open>lib/redis-mock.ts\<close>, both started in the world \<open>w\<close>, agree: both return, the value of
  the first is what the result of the second reads when it returns (\<open>view\<close> tells how
  to read it), and under every key the key-value service holds the room that the object
  of the map reads. Moreover every record that the first has written carries an expiry
  of 86400 seconds, and the map and its heap are in order again.
\<close>

definition agree_from ::
  "(world \<Rightarrow> 'b \<Rightarrow> 'a) \<Rightarrow> world \<Rightarrow> (exn + 'a) \<times> world \<Rightarrow> (exn + 'b) \<times> world \<Rightarrow> bool" where
  "agree_from view w x y \<longleftrightarrow>
     (\<exists>a b. fst x = Inr a \<and> fst y = Inr b \<and> a = view (snd y) b)
     \<and> (\<forall>k. map_option val (kv (snd x) k) = stored (snd y) k)
     \<and> (\<forall>k. kv (snd x) k \<noteq> kv w k \<longrightarrow> map_option ex (kv (snd x) k) = Some (Some 86400))
     \<and> heap_ok (snd y)"

text \<open>
  The expiry of what is stored under a key: the one of the record of the key-value
  service, and none for an entry of the map, which stays until the process ends.
\<close>

definition expiry_kv :: "world \<Rightarrow> string \<Rightarrow> nat option option" where
  "expiry_kv w k = map_option ex (kv w k)"

definition expiry_rooms :: "world \<Rightarrow> string \<Rightarrow> nat option option" where
  "expiry_rooms w k = map_option (\<lambda>_. None) (rooms w k)"

section \<open>Example worlds and requests\<close>

text \<open>
  The object that reads as a room, with its array under the reference \<open>a\<close>; and a heap
  of objects in which nothing has been put yet.
\<close>

definition obj_of :: "ref \<Rightarrow> GameState \<Rightarrow> room_obj" where
  "obj_of a g =
     \<lparr>o_players = a, o_revealed = revealed g, o_roomId = roomId g,
      o_createdAt = createdAt g, o_lastActivity = lastActivity g\<rparr>"

definition no_objs :: "ref \<Rightarrow> room_obj" where
  "no_objs = (\<lambda>_. \<lparr>o_players = 0, o_revealed = False, o_roomId = [],
                     o_createdAt = 0, o_lastActivity = 0\<rparr>)"

text \<open>
  A room with two participants, read at time 1000000: the first was last seen at time 0
  and is stale, the second was last seen 100 seconds ago. Both stores hold the room; in
  the map it is the object 1 with the array 0.
\<close>

definition player_p1 :: Player where
  "player_p1 = \<lparr>id' = ''p1'', name = ''Alice'', vote = None, hasVoted = False, lastSeen = 0\<rparr>"

definition player_p2 :: Player where
  "player_p2 =
     \<lparr>id' = ''p2'', name = ''Bob'', vote = Some ''8'', hasVoted = True, lastSeen = 900000\<rparr>"

definition room_r1 :: GameState where
  "room_r1 = \<lparr>players = [player_p1, player_p2], revealed = False, roomId = ''r1'',
               createdAt = 0, lastActivity = 900000\<rparr>"

definition world_r1 :: world where
  "world_r1 =
     \<lparr>kv = [room_key ''r1'' \<mapsto> \<lparr>val = room_r1, ex = Some 86400\<rparr>],
      kv_fails = (\<lambda>_. False), kv_calls = 0,
      rooms = [room_key ''r1'' \<mapsto> 1],
      objs = no_objs(1 := obj_of 0 room_r1),
      arrs = (\<lambda>_. [])(0 := players room_r1),
      next_ref = 2,
      clock = (\<lambda>_. 1000000), tick = 0\<rparr>"

text \<open>
  A room read at time 1000000 whose first participant was last seen exactly 300000
  milliseconds ago, and whose second participant one millisecond later.
\<close>

definition player_p3 :: Player where
  "player_p3 =
     \<lparr>id' = ''p3'', name = ''Carol'', vote = None, hasVoted = False, lastSeen = 700000\<rparr>"

definition player_p4 :: Player where
  "player_p4 =
     \<lparr>id' = ''p4'', name = ''Dan'', vote = None, hasVoted = False, lastSeen = 700001\<rparr>"

definition room_r2 :: GameState where
  "room_r2 = \<lparr>players = [player_p3, player_p4], revealed = True, roomId = ''r2'',
               createdAt = 0, lastActivity = 700001\<rparr>"

definition world_r2 :: world where
  "world_r2 =
     \<lparr>kv = [room_key ''r2'' \<mapsto> \<lparr>val = room_r2, ex = Some 86400\<rparr>],
      kv_fails = (\<lambda>_. False), kv_calls = 0,
      rooms = [room_key ''r2'' \<mapsto> 1],
      objs = no_objs(1 := obj_of 0 room_r2),
      arrs = (\<lambda>_. [])(0 := players room_r2),
      next_ref = 2,
      clock = (\<lambda>_. 1000000), tick = 0\<rparr>"

text \<open>A room read at time 1000000 in which nobody is stale.\<close>

definition room_r3 :: GameState where
  "room_r3 = \<lparr>players = [player_p2, player_p4], revealed = False, roomId = ''r3'',
               createdAt = 0, lastActivity = 900000\<rparr>"

definition world_r3 :: world where
  "world_r3 =
     \<lparr>kv = [room_key ''r3'' \<mapsto> \<lparr>val = room_r3, ex = Some 86400\<rparr>],
      kv_fails = (\<lambda>_. False), kv_calls = 0,
      rooms = [room_key ''r3'' \<mapsto> 1],
      objs = no_objs(1 := obj_of 0 room_r3),
      arrs = (\<lambda>_. [])(0 := players room_r3),
      next_ref = 2,
      clock = (\<lambda>_. 1000000), tick = 0\<rparr>"

text \<open>The world of \<open>world_r1\<close> while every call of the key-value service fails.\<close>

definition world_down :: world where
  "world_down = world_r1\<lparr>kv_fails := (\<lambda>_. True)\<rparr>"

text \<open>
  A world with empty stores, in which the fifth call of the key-value service fails
  and the clock advances by one millisecond at every reading.
\<close>

definition world_empty :: world where
  "world_empty =
     \<lparr>kv = Map.empty, kv_fails = (\<lambda>n. n = 4), kv_calls = 0, rooms = Map.empty,
      objs = no_objs, arrs = (\<lambda>_. []), next_ref = 0,
      clock = (\<lambda>n. 1000 + int n), tick = 0\<rparr>"

text \<open>Requests to vote.\<close>

definition vote_p4 :: body where
  "vote_p4 = \<lparr>action = ''vote'', playerId = ''p4'', playerName = [], vote_body = ''5''\<rparr>"

definition vote_p1 :: body where
  "vote_p1 = \<lparr>action = ''vote'', playerId = ''p1'', playerName = [], vote_body = ''5''\<rparr>"

text \<open>Requests to join.\<close>

definition join_p9 :: body where
  "join_p9 = \<lparr>action = ''join'', playerId = ''p9'', playerName = ''Eve'', vote_body = []\<rparr>"

definition join_p2 :: body where
  "join_p2 = \<lparr>action = ''join'', playerId = ''p2'', playerName = ''Bob'', vote_body = []\<rparr>"

section \<open>Basic facts\<close>

lemmas io_defs = returnE_def throwE_def bindE_def Date_now_def kv_get_def kv_set_def
  rooms_get_def rooms_set_def catchE_def

lemmas heap_defs = new_array_def new_object_def get_players_def get_revealed_def
  set_players_def set_revealed_def set_lastActivity_def players_assign_at_def
  players_push_def json_of_def json_of_opt_def

lemmas example_defs = player_p1_def player_p2_def player_p3_def player_p4_def
  room_r1_def room_r2_def room_r3_def world_r1_def world_r2_def world_r3_def
  obj_of_def no_objs_def

lemmas redis_defs = getRoom_def updateRoom_def createRoom_def addPlayer_def
  updatePlayerVote_def toggleReveal_def resetVotes_def updatePlayerHeartbeat_def
  vote_cb_def reset_cb_def heartbeat_cb_def ROOM_EXPIRY_def PLAYER_TIMEOUT_def
  room_key_def findIndex_def

lemma room_of_frame [simp]:
  "room_of (w\<lparr>tick := t\<rparr>) = room_of w"
  "room_of (w\<lparr>kv_calls := c\<rparr>) = room_of w"
  "room_of (w\<lparr>kv := m\<rparr>) = room_of w"
  "room_of (w\<lparr>next_ref := n\<rparr>) = room_of w"
  "room_of (w\<lparr>rooms := rs\<rparr>) = room_of w"
  by (simp_all add: room_of_def fun_eq_iff)

lemma stored_frame [simp]:
  "stored (w\<lparr>tick := t\<rparr>) = stored w"
  "stored (w\<lparr>kv_calls := c\<rparr>) = stored w"
  "stored (w\<lparr>kv := m\<rparr>) = stored w"
  "stored (w\<lparr>next_ref := n\<rparr>) = stored w"
  by (simp_all add: stored_def fun_eq_iff)

lemma timeout_ms: "PLAYER_TIMEOUT * 1000 = 300000"
  by (simp add: PLAYER_TIMEOUT_def)

lemma expiry_secs: "ROOM_EXPIRY = 86400"
  by (simp add: ROOM_EXPIRY_def)

lemma filter_length_eq: "length (filter P xs) = length xs \<Longrightarrow> filter P xs = xs"
  by (metis filter_True length_filter_less not_less_iff_gr_or_eq)

lemma length_filter_take_le: "length (filter P (take i xs)) \<le> length (filter P xs)"
proof -
  have "length (filter P xs) = length (filter P (take i xs @ drop i xs))" by simp
  also have "\<dots> = length (filter P (take i xs)) + length (filter P (drop i xs))"
    by (simp only: filter_append length_append)
  finally show ?thesis by simp
qed

lemma world_r1_kv:
  "kv world_r1 (room_key ''r1'') = Some \<lparr>val = room_r1, ex = Some 86400\<rparr>"
  by (simp add: world_r1_def)

lemma world_r1_up: "\<forall>n. \<not> kv_fails world_r1 n"
  by (simp add: world_r1_def)

subsection \<open>The callbacks of map\<close>

lemma vote_cb_stamp:
  "vote_cb pid v =
     stamp_cb (\<lambda>p. id' p = pid) (\<lambda>now p. p\<lparr>vote := Some v, hasVoted := True, lastSeen := now\<rparr>)"
  by (rule ext) (simp add: vote_cb_def stamp_cb_def)

lemma reset_cb_stamp:
  "reset_cb =
     stamp_cb (\<lambda>p. True) (\<lambda>now p. p\<lparr>vote := None, hasVoted := False, lastSeen := now\<rparr>)"
  by (rule ext) (simp add: reset_cb_def stamp_cb_def)

lemma heartbeat_cb_stamp:
  "heartbeat_cb pid = stamp_cb (\<lambda>p. id' p = pid) (\<lambda>now p. p\<lparr>lastSeen := now\<rparr>)"
  by (rule ext) (simp add: heartbeat_cb_def stamp_cb_def)

lemma stamp_cb_apply:
  "stamp_cb sel upd p w =
     (if sel p then (Inr (upd (clock w (tick w)) p), w\<lparr>tick := Suc (tick w)\<rparr>)
      else (Inr p, w))"
  by (simp add: stamp_cb_def bindE_def returnE_def Date_now_def)

lemma mapE_Cons_apply:
  "mapE f (x # xs) w =
     (case f x w of
        (Inl e, w') \<Rightarrow> (Inl e, w')
      | (Inr y, w1) \<Rightarrow>
          (case mapE f xs w1 of
             (Inl e, w') \<Rightarrow> (Inl e, w')
           | (Inr ys, w2) \<Rightarrow> (Inr (y # ys), w2)))"
  by (simp add: bindE_def returnE_def split: prod.splits sum.splits)

lemma mapE_stamp:
  "mapE (stamp_cb sel upd) ps w =
     (Inr (stamp_from (clock w) (tick w) sel upd ps),
      w\<lparr>tick := tick w + length (filter sel ps)\<rparr>)"
proof (induction ps arbitrary: w)
  case Nil
  show ?case by (simp add: returnE_def)
next
  case (Cons p ps)
  show ?case
    by (simp only: mapE_Cons_apply Cons.IH) (simp add: stamp_cb_apply)
qed

lemma length_stamp_from [simp]: "length (stamp_from c t sel upd ps) = length ps"
  by (induction ps arbitrary: t) auto

lemma nth_stamp_from:
  "i < length ps \<Longrightarrow>
   stamp_from c t sel upd ps ! i =
     (if sel (ps ! i) then upd (c (t + length (filter sel (take i ps)))) (ps ! i) else ps ! i)"
proof (induction ps arbitrary: t i)
  case Nil
  then show ?case by simp
next
  case (Cons p ps)
  show ?case
  proof (cases i)
    case 0
    then show ?thesis by simp
  next
    case (Suc j)
    with Cons.prems have "j < length ps" by simp
    from Cons.IH [OF this] Suc show ?thesis by simp
  qed
qed

lemma stamp_from_none: "\<forall>p\<in>set ps. \<not> sel p \<Longrightarrow> stamp_from c t sel upd ps = ps"
  by (induction ps arbitrary: t) auto

lemma map_stamp_from:
  "(\<And>now p. f (upd now p) = f p) \<Longrightarrow> map f (stamp_from c t sel upd ps) = map f ps"
  by (induction ps arbitrary: t) auto

subsection \<open>findIndex\<close>

lemma findIndex_from_none: "\<forall>x\<in>set xs. \<not> P x \<Longrightarrow> findIndex_from P xs i = - 1"
  by (induction xs arbitrary: i) auto

lemma findIndex_from_some:
  "\<exists>x\<in>set xs. P x \<Longrightarrow>
   \<exists>k<length xs. findIndex_from P xs i = i + int k \<and> P (xs ! k) \<and> (\<forall>j<k. \<not> P (xs ! j))"
proof (induction xs arbitrary: i)
  case Nil
  then show ?case by simp
next
  case (Cons x xs)
  show ?case
  proof (cases "P x")
    case True
    then have "findIndex_from P (x # xs) i = i + int 0 \<and> P ((x # xs) ! 0)
                \<and> (\<forall>j<0. \<not> P ((x # xs) ! j))"
      by simp
    then show ?thesis by blast
  next
    case False
    with Cons.prems have "\<exists>y\<in>set xs. P y" by auto
    from Cons.IH [OF this, of "i + 1"]
    obtain k where k: "k < length xs" "findIndex_from P xs (i + 1) = i + 1 + int k"
      "P (xs ! k)" "\<forall>j<k. \<not> P (xs ! j)"
      by blast
    have "\<forall>j<Suc k. \<not> P ((x # xs) ! j)"
    proof (intro allI impI)
      fix j assume "j < Suc k"
      then show "\<not> P ((x # xs) ! j)" using False k(4) by (cases j) auto
    qed
    with k False have "Suc k < length (x # xs)
        \<and> findIndex_from P (x # xs) i = i + int (Suc k) \<and> P ((x # xs) ! Suc k)
        \<and> (\<forall>j<Suc k. \<not> P ((x # xs) ! j))"
      by simp
    then show ?thesis by blast
  qed
qed

lemma findIndex_none: "\<forall>x\<in>set xs. \<not> P x \<Longrightarrow> findIndex P xs = - 1"
  by (simp add: findIndex_def findIndex_from_none)

lemma findIndex_some:
  assumes "\<exists>x\<in>set xs. P x"
  obtains k where "k < length xs" and "findIndex P xs = int k" and "P (xs ! k)"
    and "\<forall>j<k. \<not> P (xs ! j)"
  using findIndex_from_some [OF assms, of 0] by (auto simp: findIndex_def)

lemma only_fresh_after_add:
  assumes d: "distinct (map id' ps)" and q: "id' q = pid"
    and p: "p \<in> set (if findIndex (\<lambda>x. id' x = pid) ps \<ge> 0
                      then ps[nat (findIndex (\<lambda>x. id' x = pid) ps) := q]
                      else ps @ [q])"
    and pp: "id' p = pid"
  shows "p = q"
proof (cases "\<exists>x\<in>set ps. id' x = pid")
  case True
  from findIndex_some [OF this]
  obtain k where k: "k < length ps" "findIndex (\<lambda>x. id' x = pid) ps = int k"
    "id' (ps ! k) = pid"
    by blast
  from p k have "p \<in> set (ps[k := q])" by simp
  then obtain j where j: "j < length ps" "p = ps[k := q] ! j"
    by (auto simp: in_set_conv_nth)
  show ?thesis
  proof (cases "j = k")
    case True
    with j k show ?thesis by simp
  next
    case False
    with j have "p = ps ! j" by simp
    with pp k(3) have "map id' ps ! j = map id' ps ! k" using j(1) k(1) by simp
    moreover have "j < length (map id' ps)" "k < length (map id' ps)" using j(1) k(1) by simp_all
    ultimately have "j = k" using d by (simp only: nth_eq_iff_index_eq)
    with False show ?thesis by simp
  qed
next
  case False
  then have "findIndex (\<lambda>x. id' x = pid) ps = - 1" by (simp add: findIndex_none)
  with p have "p \<in> set ps \<or> p = q" by auto
  with False pp show ?thesis by auto
qed

lemma fresh_in_after_add:
  "q \<in> set (if findIndex (\<lambda>x. id' x = pid) ps \<ge> 0
              then ps[nat (findIndex (\<lambda>x. id' x = pid) ps) := q]
              else ps @ [q])"
proof (cases "\<exists>x\<in>set ps. id' x = pid")
  case True
  from findIndex_some [OF this]
  obtain k where k: "k < length ps" "findIndex (\<lambda>x. id' x = pid) ps = int k"
    by blast
  then show ?thesis by (simp add: set_update_memI)
next
  case False
  then have "findIndex (\<lambda>x. id' x = pid) ps = - 1" by (simp add: findIndex_none)
  then show ?thesis by simp
qed

subsection \<open>lib/redis.ts while the key-value service answers\<close>

lemma updateRoom_ok:
  "\<not> kv_fails w (kv_calls w) \<Longrightarrow>
   updateRoom rid st w =
     (Inr (st\<lparr>lastActivity := clock w (tick w)\<rparr>),
      w\<lparr>tick := Suc (tick w), kv_calls := Suc (kv_calls w),
        kv := (kv w)(room_key rid \<mapsto>
                \<lparr>val = st\<lparr>lastActivity := clock w (tick w)\<rparr>, ex = Some 86400\<rparr>)\<rparr>)"
  by (simp add: updateRoom_def io_defs Let_def expiry_secs)

lemma getRoom_absent:
  "kv w (room_key rid) = None \<Longrightarrow> \<not> kv_fails w (kv_calls w) \<Longrightarrow>
   getRoom rid w = (Inr None, w\<lparr>kv_calls := Suc (kv_calls w)\<rparr>)"
  by (simp add: getRoom_def io_defs)

lemma getRoom_present:
  "kv w (room_key rid) = Some e \<Longrightarrow> \<forall>n. \<not> kv_fails w n \<Longrightarrow>
   getRoom rid w =
     (let act = filter (\<lambda>p. clock w (tick w) - lastSeen p < 300000) (players (val e)) in
      if length act \<noteq> length (players (val e))
      then (Inr (Some ((val e)\<lparr>players := act, lastActivity := clock w (Suc (tick w))\<rparr>)),
            w\<lparr>tick := Suc (Suc (tick w)), kv_calls := Suc (Suc (kv_calls w)),
              kv := (kv w)(room_key rid \<mapsto>
                      \<lparr>val = (val e)\<lparr>players := act, lastActivity := clock w (Suc (tick w))\<rparr>,
                        ex = Some 86400\<rparr>)\<rparr>)
      else (Inr (Some (val e)), w\<lparr>tick := Suc (tick w), kv_calls := Suc (kv_calls w)\<rparr>))"
  by (simp add: getRoom_def updateRoom_def io_defs Let_def expiry_secs timeout_ms)

lemma getRoom_ok:
  assumes "kv w (room_key rid) = Some e" and "\<forall>n. \<not> kv_fails w n"
  obtains room0 w0 where "getRoom rid w = (Inr (Some room0), w0)"
    and "players room0 = filter (\<lambda>p. clock w (tick w) - lastSeen p < 300000) (players (val e))"
    and "revealed room0 = revealed (val e)" and "roomId room0 = roomId (val e)"
    and "createdAt room0 = createdAt (val e)"
    and "map_option val (kv w0 (room_key rid)) = Some room0"
    and "\<forall>k. k \<noteq> room_key rid \<longrightarrow> kv w0 k = kv w k"
    and "kv_fails w0 = kv_fails w" and "clock w0 = clock w" and "rooms w0 = rooms w"
    and "tick w < tick w0" and "tick w0 \<le> tick w + 2"
proof (cases "length (filter (\<lambda>p. clock w (tick w) - lastSeen p < 300000) (players (val e)))
               = length (players (val e))")
  case True
  then have "filter (\<lambda>p. clock w (tick w) - lastSeen p < 300000) (players (val e)) = players (val e)"
    by (rule filter_length_eq)
  with True assms show ?thesis
    by (intro that [of "val e" "w\<lparr>tick := Suc (tick w), kv_calls := Suc (kv_calls w)\<rparr>"])
       (simp_all add: getRoom_present Let_def)
next
  case False
  with assms show ?thesis
    by (intro that [of "(val e)\<lparr>players := filter (\<lambda>p. clock w (tick w) - lastSeen p < 300000) (players (val e)),
                          lastActivity := clock w (Suc (tick w))\<rparr>"
          "w\<lparr>tick := Suc (Suc (tick w)), kv_calls := Suc (Suc (kv_calls w)),
              kv := (kv w)(room_key rid \<mapsto>
                      \<lparr>val = (val e)\<lparr>players := filter (\<lambda>p. clock w (tick w) - lastSeen p < 300000) (players (val e)), lastActivity := clock w (Suc (tick w))\<rparr>,
                        ex = Some 86400\<rparr>)\<rparr>"])
       (simp_all add: getRoom_present Let_def)
qed

lemma createRoom_ok:
  "\<not> kv_fails w (kv_calls w) \<Longrightarrow>
   createRoom rid w =
     (let room = \<lparr>players = [], revealed = False, roomId = rid,
                  createdAt = clock w (tick w), lastActivity = clock w (Suc (tick w))\<rparr>
      in (Inr room,
          w\<lparr>tick := Suc (Suc (tick w)), kv_calls := Suc (kv_calls w),
            kv := (kv w)(room_key rid \<mapsto> \<lparr>val = room, ex = Some 86400\<rparr>)\<rparr>))"
  by (simp add: createRoom_def io_defs Let_def expiry_secs)

lemma addPlayer_after:
  assumes "getRoom rid w = (Inr (Some room0), w0)" and "\<not> kv_fails w0 (kv_calls w0)"
  shows "addPlayer rid player w =
    (let i = findIndex (\<lambda>p. id' p = id' player) (players room0);
         new = player\<lparr>lastSeen := clock w0 (tick w0)\<rparr>;
         ps = (if i \<ge> 0 then (players room0)[nat i := new] else players room0 @ [new]);
         room = room0\<lparr>players := ps, lastActivity := clock w0 (Suc (tick w0))\<rparr>
     in (Inr room,
         w0\<lparr>tick := Suc (Suc (tick w0)), kv_calls := Suc (kv_calls w0),
            kv := (kv w0)(room_key rid \<mapsto> \<lparr>val = room, ex = Some 86400\<rparr>)\<rparr>))"
  using assms
  by (simp add: addPlayer_def bindE_def returnE_def Date_now_def updateRoom_ok Let_def)

lemma addPlayer_created:
  assumes "getRoom rid w = (Inr None, w0)" and "\<forall>n. \<not> kv_fails w0 n"
  shows "addPlayer rid player w =
    (let new = player\<lparr>lastSeen := clock w0 (Suc (Suc (tick w0)))\<rparr>;
         room = \<lparr>players = [new], revealed = False, roomId = rid,
                 createdAt = clock w0 (tick w0), lastActivity = clock w0 (Suc (Suc (Suc (tick w0))))\<rparr>
     in (Inr room,
         w0\<lparr>tick := Suc (Suc (Suc (Suc (tick w0)))), kv_calls := Suc (Suc (kv_calls w0)),
            kv := (kv w0)(room_key rid \<mapsto> \<lparr>val = room, ex = Some 86400\<rparr>)\<rparr>))"
  using assms
  by (simp add: addPlayer_def bindE_def returnE_def Date_now_def updateRoom_ok createRoom_ok
      findIndex_def Let_def)

lemma updatePlayerVote_after:
  assumes "getRoom rid w = (Inr (Some room0), w0)" and "\<not> kv_fails w0 (kv_calls w0)"
  shows "updatePlayerVote rid pid v w =
    (let ps = stamp_from (clock w0) (tick w0) (\<lambda>p. id' p = pid)
                (\<lambda>now p. p\<lparr>vote := Some v, hasVoted := True, lastSeen := now\<rparr>) (players room0);
         t = tick w0 + length (filter (\<lambda>p. id' p = pid) (players room0));
         room = room0\<lparr>players := ps, lastActivity := clock w0 t\<rparr>
     in (Inr (Some room),
         w0\<lparr>tick := Suc t, kv_calls := Suc (kv_calls w0),
            kv := (kv w0)(room_key rid \<mapsto> \<lparr>val = room, ex = Some 86400\<rparr>)\<rparr>))"
  using assms
  by (simp add: updatePlayerVote_def bindE_def returnE_def vote_cb_stamp mapE_stamp
      updateRoom_ok Let_def)

lemma updatePlayerVote_none:
  "getRoom rid w = (Inr None, w0) \<Longrightarrow> updatePlayerVote rid pid v w = (Inr None, w0)"
  by (simp add: updatePlayerVote_def bindE_def returnE_def)

lemma toggleReveal_after:
  assumes "getRoom rid w = (Inr (Some room0), w0)" and "\<not> kv_fails w0 (kv_calls w0)"
  shows "toggleReveal rid w =
    (let room = room0\<lparr>revealed := \<not> revealed room0, lastActivity := clock w0 (tick w0)\<rparr>
     in (Inr (Some room),
         w0\<lparr>tick := Suc (tick w0), kv_calls := Suc (kv_calls w0),
            kv := (kv w0)(room_key rid \<mapsto> \<lparr>val = room, ex = Some 86400\<rparr>)\<rparr>))"
  using assms
  by (simp add: toggleReveal_def bindE_def returnE_def updateRoom_ok Let_def)

lemma toggleReveal_none:
  "getRoom rid w = (Inr None, w0) \<Longrightarrow> toggleReveal rid w = (Inr None, w0)"
  by (simp add: toggleReveal_def bindE_def returnE_def)

lemma toggleReveal_ok:
  assumes "kv w (room_key rid) = Some e" and "\<forall>n. \<not> kv_fails w n"
  obtains room1 w1 where "toggleReveal rid w = (Inr (Some room1), w1)"
    and "revealed room1 = (\<not> revealed (val e))"
    and "kv w1 (room_key rid) = Some \<lparr>val = room1, ex = Some 86400\<rparr>"
    and "\<forall>n. \<not> kv_fails w1 n"
proof -
  from getRoom_ok [OF assms]
  obtain room0 w0 where g: "getRoom rid w = (Inr (Some room0), w0)"
    and rv: "revealed room0 = revealed (val e)"
    and same: "kv_fails w0 = kv_fails w"
    by blast
  from assms(2) same have "\<not> kv_fails w0 (kv_calls w0)" by simp
  note t = toggleReveal_after [OF g this]
  show ?thesis
    by (rule that [of "room0\<lparr>revealed := \<not> revealed room0, lastActivity := clock w0 (tick w0)\<rparr>"
          "w0\<lparr>tick := Suc (tick w0), kv_calls := Suc (kv_calls w0),
             kv := (kv w0)(room_key rid \<mapsto>
               \<lparr>val = room0\<lparr>revealed := \<not> revealed room0, lastActivity := clock w0 (tick w0)\<rparr>,
                 ex = Some 86400\<rparr>)\<rparr>"])
       (use t rv same assms(2) in \<open>simp_all add: Let_def\<close>)
qed

lemma resetVotes_after:
  assumes "getRoom rid w = (Inr (Some room0), w0)" and "\<not> kv_fails w0 (kv_calls w0)"
  shows "resetVotes rid w =
    (let ps = stamp_from (clock w0) (tick w0) (\<lambda>p. True)
                (\<lambda>now p. p\<lparr>vote := None, hasVoted := False, lastSeen := now\<rparr>) (players room0);
         t = tick w0 + length (players room0);
         room = room0\<lparr>players := ps, revealed := False, lastActivity := clock w0 t\<rparr>
     in (Inr (Some room),
         w0\<lparr>tick := Suc t, kv_calls := Suc (kv_calls w0),
            kv := (kv w0)(room_key rid \<mapsto> \<lparr>val = room, ex = Some 86400\<rparr>)\<rparr>))"
  using assms
  by (simp add: resetVotes_def bindE_def returnE_def reset_cb_stamp mapE_stamp
      updateRoom_ok Let_def)

lemma resetVotes_none:
  "getRoom rid w = (Inr None, w0) \<Longrightarrow> resetVotes rid w = (Inr None, w0)"
  by (simp add: resetVotes_def bindE_def returnE_def)

lemma updatePlayerHeartbeat_after:
  assumes "getRoom rid w = (Inr (Some room0), w0)" and "\<not> kv_fails w0 (kv_calls w0)"
  shows "updatePlayerHeartbeat rid pid w =
    (let ps = stamp_from (clock w0) (tick w0) (\<lambda>p. id' p = pid)
                (\<lambda>now p. p\<lparr>lastSeen := now\<rparr>) (players room0);
         t = tick w0 + length (filter (\<lambda>p. id' p = pid) (players room0));
         room = room0\<lparr>players := ps, lastActivity := clock w0 t\<rparr>
     in (Inr (),
         w0\<lparr>tick := Suc t, kv_calls := Suc (kv_calls w0),
            kv := (kv w0)(room_key rid \<mapsto> \<lparr>val = room, ex = Some 86400\<rparr>)\<rparr>))"
  using assms
  by (simp add: updatePlayerHeartbeat_def bindE_def returnE_def heartbeat_cb_stamp mapE_stamp
      updateRoom_ok Let_def)

lemma updatePlayerHeartbeat_none:
  "getRoom rid w = (Inr None, w0) \<Longrightarrow> updatePlayerHeartbeat rid pid w = (Inr (), w0)"
  by (simp add: updatePlayerHeartbeat_def bindE_def returnE_def)

subsection \<open>lib/redis-mock.ts\<close>

lemma world_r1_stored: "stored world_r1 (room_key ''r1'') = Some room_r1"
  by (simp add: stored_def room_of_def world_r1_def obj_of_def room_r1_def)

lemma world_r1_rooms: "rooms world_r1 (room_key ''r1'') = Some 1"
  by (simp add: world_r1_def)

lemma world_r2_stored: "stored world_r2 (room_key ''r2'') = Some room_r2"
  by (simp add: stored_def room_of_def world_r2_def obj_of_def room_r2_def)

lemma world_r3_stored: "stored world_r3 (room_key ''r3'') = Some room_r3"
  by (simp add: stored_def room_of_def world_r3_def obj_of_def room_r3_def)

lemma world_r3_kv:
  "kv world_r3 (room_key ''r3'') = Some \<lparr>val = room_r3, ex = Some 86400\<rparr>"
  by (simp add: world_r3_def)

lemma world_r3_up: "\<forall>n. \<not> kv_fails world_r3 n"
  by (simp add: world_r3_def)

lemma world_r3_rooms: "rooms world_r3 (room_key ''r3'') = Some 1"
  by (simp add: world_r3_def)

lemma updateRoom_mock_apply:
  "updateRoom_mock rid s w =
     (Inr (),
      w\<lparr>tick := Suc (tick w),
        objs := (objs w)(s := (objs w s)\<lparr>o_lastActivity := clock w (tick w)\<rparr>),
        rooms := (rooms w)(room_key rid \<mapsto> s)\<rparr>)"
  by (simp add: updateRoom_mock_def io_defs heap_defs)

lemma getRoom_mock_absent:
  "rooms w (room_key rid) = None \<Longrightarrow> getRoom_mock rid w = (Inr None, w)"
  by (simp add: getRoom_mock_def io_defs)

lemma getRoom_mock_present:
  "rooms w (room_key rid) = Some r \<Longrightarrow>
   getRoom_mock rid w =
     (if length (filter (\<lambda>p. clock w (tick w) - lastSeen p < 300000)
                  (arrs w (o_players (objs w r))))
         \<noteq> length (arrs w (o_players (objs w r)))
      then (Inr (Some r),
            w\<lparr>tick := Suc (Suc (tick w)),
              arrs := (arrs w)(next_ref w :=
                        filter (\<lambda>p. clock w (tick w) - lastSeen p < 300000)
                          (arrs w (o_players (objs w r)))),
              next_ref := Suc (next_ref w),
              objs := (objs w)(r := (objs w r)\<lparr>o_players := next_ref w,
                                               o_lastActivity := clock w (Suc (tick w))\<rparr>),
              rooms := (rooms w)(room_key rid \<mapsto> r)\<rparr>)
      else (Inr (Some r), w\<lparr>tick := Suc (tick w)\<rparr>))"
  by (simp add: getRoom_mock_def updateRoom_mock_apply io_defs heap_defs Let_def timeout_ms)

lemma createRoom_mock_apply:
  "createRoom_mock rid w =
     (Inr (Suc (next_ref w)),
      w\<lparr>tick := Suc (Suc (tick w)),
        arrs := (arrs w)(next_ref w := []),
        next_ref := Suc (Suc (next_ref w)),
        objs := (objs w)(Suc (next_ref w) :=
                  \<lparr>o_players = next_ref w, o_revealed = False, o_roomId = rid,
                   o_createdAt = clock w (tick w), o_lastActivity = clock w (Suc (tick w))\<rparr>),
        rooms := (rooms w)(room_key rid \<mapsto> Suc (next_ref w))\<rparr>)"
  by (simp add: createRoom_mock_def io_defs heap_defs)

text \<open>What the fetch of the in-memory module returns and leaves, read as values.\<close>

lemma getRoom_mock_ok:
  assumes "rooms w (room_key rid) = Some r"
  obtains w0 where "getRoom_mock rid w = (Inr (Some r), w0)"
    and "players (room_of w0 r)
           = filter (\<lambda>p. clock w (tick w) - lastSeen p < 300000) (players (room_of w r))"
    and "revealed (room_of w0 r) = revealed (room_of w r)"
    and "roomId (room_of w0 r) = roomId (room_of w r)"
    and "createdAt (room_of w0 r) = createdAt (room_of w r)"
    and "rooms w0 (room_key rid) = Some r"
    and "\<forall>k. k \<noteq> room_key rid \<longrightarrow> rooms w0 k = rooms w k"
    and "clock w0 = clock w" and "kv w0 = kv w"
    and "tick w < tick w0" and "tick w0 \<le> tick w + 2"
proof (cases "length (filter (\<lambda>p. clock w (tick w) - lastSeen p < 300000)
                  (arrs w (o_players (objs w r))))
         = length (arrs w (o_players (objs w r)))")
  case True
  then have "filter (\<lambda>p. clock w (tick w) - lastSeen p < 300000)
                  (arrs w (o_players (objs w r))) = arrs w (o_players (objs w r))"
    by (rule filter_length_eq)
  with True assms show ?thesis
    by (intro that [of "w\<lparr>tick := Suc (tick w)\<rparr>"])
       (simp_all add: getRoom_mock_present room_of_def)
next
  case False
  with assms show ?thesis
    by (intro that [of "w\<lparr>tick := Suc (Suc (tick w)),
              arrs := (arrs w)(next_ref w :=
                        filter (\<lambda>p. clock w (tick w) - lastSeen p < 300000)
                          (arrs w (o_players (objs w r)))),
              next_ref := Suc (next_ref w),
              objs := (objs w)(r := (objs w r)\<lparr>o_players := next_ref w,
                                               o_lastActivity := clock w (Suc (tick w))\<rparr>),
              rooms := (rooms w)(room_key rid \<mapsto> r)\<rparr>"])
       (simp_all add: getRoom_mock_present room_of_def)
qed

lemma updatePlayerVote_mock_none:
  "getRoom_mock rid w = (Inr None, w0) \<Longrightarrow> updatePlayerVote_mock rid pid v w = (Inr None, w0)"
  by (simp add: updatePlayerVote_mock_def bindE_def returnE_def)

lemma updatePlayerVote_mock_after:
  assumes "getRoom_mock rid w = (Inr (Some r), w0)"
  shows "updatePlayerVote_mock rid pid v w =
    (let ps0 = arrs w0 (o_players (objs w0 r));
         ps = stamp_from (clock w0) (tick w0) (\<lambda>p. id' p = pid)
                (\<lambda>now p. p\<lparr>vote := Some v, hasVoted := True, lastSeen := now\<rparr>) ps0;
         t = tick w0 + length (filter (\<lambda>p. id' p = pid) ps0)
     in (Inr (Some r),
         w0\<lparr>tick := Suc t,
            arrs := (arrs w0)(next_ref w0 := ps),
            next_ref := Suc (next_ref w0),
            objs := (objs w0)(r := (objs w0 r)\<lparr>o_players := next_ref w0,
                                                o_lastActivity := clock w0 t\<rparr>),
            rooms := (rooms w0)(room_key rid \<mapsto> r)\<rparr>))"
  using assms
  by (simp add: updatePlayerVote_mock_def bindE_def returnE_def vote_cb_stamp mapE_stamp
      updateRoom_mock_apply heap_defs Let_def)

lemma toggleReveal_mock_none:
  "getRoom_mock rid w = (Inr None, w0) \<Longrightarrow> toggleReveal_mock rid w = (Inr None, w0)"
  by (simp add: toggleReveal_mock_def bindE_def returnE_def)

lemma toggleReveal_mock_after:
  assumes "getRoom_mock rid w = (Inr (Some r), w0)"
  shows "toggleReveal_mock rid w =
    (Inr (Some r),
     w0\<lparr>tick := Suc (tick w0),
        objs := (objs w0)(r := (objs w0 r)\<lparr>o_revealed := \<not> o_revealed (objs w0 r),
                                            o_lastActivity := clock w0 (tick w0)\<rparr>),
        rooms := (rooms w0)(room_key rid \<mapsto> r)\<rparr>)"
  using assms
  by (simp add: toggleReveal_mock_def bindE_def returnE_def updateRoom_mock_apply heap_defs)

lemma resetVotes_mock_none:
  "getRoom_mock rid w = (Inr None, w0) \<Longrightarrow> resetVotes_mock rid w = (Inr None, w0)"
  by (simp add: resetVotes_mock_def bindE_def returnE_def)

lemma resetVotes_mock_after:
  assumes "getRoom_mock rid w = (Inr (Some r), w0)"
  shows "resetVotes_mock rid w =
    (let ps0 = arrs w0 (o_players (objs w0 r));
         ps = stamp_from (clock w0) (tick w0) (\<lambda>p. True)
                (\<lambda>now p. p\<lparr>vote := None, hasVoted := False, lastSeen := now\<rparr>) ps0;
         t = tick w0 + length ps0
     in (Inr (Some r),
         w0\<lparr>tick := Suc t,
            arrs := (arrs w0)(next_ref w0 := ps),
            next_ref := Suc (next_ref w0),
            objs := (objs w0)(r := (objs w0 r)\<lparr>o_players := next_ref w0,
                                                o_revealed := False,
                                                o_lastActivity := clock w0 t\<rparr>),
            rooms := (rooms w0)(room_key rid \<mapsto> r)\<rparr>))"
  using assms
  by (simp add: resetVotes_mock_def bindE_def returnE_def reset_cb_stamp mapE_stamp
      updateRoom_mock_apply heap_defs Let_def)

lemma updatePlayerHeartbeat_mock_none:
  "getRoom_mock rid w = (Inr None, w0) \<Longrightarrow>
   updatePlayerHeartbeat_mock rid pid w = (Inr (), w0)"
  by (simp add: updatePlayerHeartbeat_mock_def bindE_def returnE_def)

lemma updatePlayerHeartbeat_mock_after:
  assumes "getRoom_mock rid w = (Inr (Some r), w0)"
  shows "updatePlayerHeartbeat_mock rid pid w =
    (let ps0 = arrs w0 (o_players (objs w0 r));
         ps = stamp_from (clock w0) (tick w0) (\<lambda>p. id' p = pid)
                (\<lambda>now p. p\<lparr>lastSeen := now\<rparr>) ps0;
         t = tick w0 + length (filter (\<lambda>p. id' p = pid) ps0)
     in (Inr (),
         w0\<lparr>tick := Suc t,
            arrs := (arrs w0)(next_ref w0 := ps),
            next_ref := Suc (next_ref w0),
            objs := (objs w0)(r := (objs w0 r)\<lparr>o_players := next_ref w0,
                                                o_lastActivity := clock w0 t\<rparr>),
            rooms := (rooms w0)(room_key rid \<mapsto> r)\<rparr>))"
  using assms
  by (simp add: updatePlayerHeartbeat_mock_def bindE_def returnE_def heartbeat_cb_stamp
      mapE_stamp updateRoom_mock_apply heap_defs Let_def)

lemma addPlayer_mock_after:
  assumes "getRoom_mock rid w = (Inr (Some r), w0)"
  shows "addPlayer_mock rid player w =
    (let a = o_players (objs w0 r);
         i = findIndex (\<lambda>p. id' p = id' player) (arrs w0 a);
         ps = (if i \<ge> 0 then (arrs w0 a)[nat i := player] else arrs w0 a @ [player])
     in (Inr r,
         w0\<lparr>tick := Suc (tick w0),
            arrs := (arrs w0)(a := ps),
            objs := (objs w0)(r := (objs w0 r)\<lparr>o_lastActivity := clock w0 (tick w0)\<rparr>),
            rooms := (rooms w0)(room_key rid \<mapsto> r)\<rparr>))"
  using assms
  by (simp add: addPlayer_mock_def bindE_def returnE_def updateRoom_mock_apply heap_defs Let_def)

lemma addPlayer_mock_created:
  assumes "getRoom_mock rid w = (Inr None, w0)"
  shows "addPlayer_mock rid player w =
    (Inr (Suc (next_ref w0)),
     w0\<lparr>tick := Suc (Suc (Suc (tick w0))),
        arrs := (arrs w0)(next_ref w0 := [player]),
        next_ref := Suc (Suc (next_ref w0)),
        objs := (objs w0)(Suc (next_ref w0) :=
                  \<lparr>o_players = next_ref w0, o_revealed = False, o_roomId = rid,
                   o_createdAt = clock w0 (tick w0),
                   o_lastActivity = clock w0 (Suc (Suc (tick w0)))\<rparr>),
        rooms := (rooms w0)(room_key rid \<mapsto> Suc (next_ref w0))\<rparr>)"
  using assms
  by (simp add: addPlayer_mock_def bindE_def returnE_def updateRoom_mock_apply
      createRoom_mock_apply heap_defs Let_def findIndex_def)

subsection \<open>The route\<close>

lemma catchE_returns:
  assumes "\<And>e w. \<exists>a. fst (h e w) = Inr a"
  shows "\<exists>a. fst (catchE m h w) = Inr a"
proof (cases "m w")
  case (Pair r w')
  show ?thesis
  proof (cases r)
    case (Inl e)
    with Pair assms [of e w'] show ?thesis by (simp add: catchE_def)
  next
    case (Inr a)
    with Pair show ?thesis by (simp add: catchE_def)
  qed
qed

text \<open>The route with the backend of \<^verbatim>\<open>lib/redis.ts\<close>.\<close>

lemma redis_True [simp]:
  "redis_getRoom True = getRoom"
  "redis_addPlayer True = addPlayer"
  "redis_updatePlayerVote True = updatePlayerVote"
  "redis_toggleReveal True = toggleReveal"
  "redis_resetVotes True = resetVotes"
  "redis_updatePlayerHeartbeat True = updatePlayerHeartbeat"
  by (simp_all add: fun_eq_iff redis_getRoom_def redis_addPlayer_def
      redis_updatePlayerVote_def redis_toggleReveal_def redis_resetVotes_def
      redis_updatePlayerHeartbeat_def)

lemma POST_vote:
  "action b = ''vote'' \<Longrightarrow>
   POST u rid (Some b) w =
     (case redis_updatePlayerVote u rid (playerId b) (vote_body b) w of
        (Inl e, w') \<Rightarrow> (Inr \<lparr>status = 500, json = ErrorJson ''Internal server error''\<rparr>, w')
      | (Inr r, w') \<Rightarrow> (Inr (room_or_404 r), w'))"
  by (simp add: POST_def catchE_def bindE_def returnE_def split: prod.splits sum.splits)

lemma POST_join:
  "action b = ''join'' \<Longrightarrow>
   POST u rid (Some b) w =
     (case redis_addPlayer u rid
             \<lparr>id' = playerId b, name = playerName b, vote = None, hasVoted = False,
              lastSeen = clock w (tick w)\<rparr>
             (w\<lparr>tick := Suc (tick w)\<rparr>) of
        (Inl e, w') \<Rightarrow> (Inr \<lparr>status = 500, json = ErrorJson ''Internal server error''\<rparr>, w')
      | (Inr room, w') \<Rightarrow> (Inr \<lparr>status = 200, json = RoomJson room\<rparr>, w'))"
  by (simp add: POST_def catchE_def bindE_def returnE_def Date_now_def
      split: prod.splits sum.splits)

lemma POST_catches:
  "\<exists>resp. fst (POST u rid (Some b) w) = Inr resp"
  unfolding POST_def option.case
  by (rule catchE_returns) (simp add: returnE_def)

lemma GET_throws:
  "kv_fails w (kv_calls w) \<Longrightarrow> fst (GET True rid w) = Inl KvError"
  by (simp add: GET_def getRoom_def io_defs)

subsection \<open>Unique identifiers\<close>

lemma keepsI:
  "(\<And>w r w'. uniq_ids w \<Longrightarrow> m w = (r, w') \<Longrightarrow> uniq_ids w' \<and> (\<forall>a. r = Inr a \<longrightarrow> Q a))
   \<Longrightarrow> keeps m Q"
  by (simp add: keeps_def)

lemma keepsD:
  "keeps m Q \<Longrightarrow> uniq_ids w \<Longrightarrow> m w = (r, w') \<Longrightarrow> uniq_ids w' \<and> (\<forall>a. r = Inr a \<longrightarrow> Q a)"
  by (simp add: keeps_def)

lemma keeps_weaken: "keeps m Q \<Longrightarrow> (\<And>a. Q a \<Longrightarrow> Q' a) \<Longrightarrow> keeps m Q'"
  by (auto simp: keeps_def)

lemma keeps_returnE: "Q a \<Longrightarrow> keeps (returnE a) Q"
  by (simp add: keeps_def returnE_def)

lemma keeps_throwE: "keeps (throwE e) Q"
  by (simp add: keeps_def throwE_def)

lemma keeps_bindE:
  assumes m: "keeps m Q" and f: "\<And>a. Q a \<Longrightarrow> keeps (f a) R"
  shows "keeps (bindE m f) R"
proof (rule keepsI)
  fix w r w'
  assume inv: "uniq_ids w" and run: "bindE m f w = (r, w')"
  obtain r1 w1 where m1: "m w = (r1, w1)" by (cases "m w")
  from keepsD [OF m inv m1] have inv1: "uniq_ids w1" and q: "\<forall>a. r1 = Inr a \<longrightarrow> Q a"
    by simp_all
  show "uniq_ids w' \<and> (\<forall>a. r = Inr a \<longrightarrow> R a)"
  proof (cases r1)
    case (Inl e)
    with run m1 inv1 show ?thesis by (auto simp: bindE_def)
  next
    case (Inr a)
    with q have "Q a" by simp
    from Inr run m1 have "f a w1 = (r, w')" by (simp add: bindE_def)
    from keepsD [OF f [OF \<open>Q a\<close>] inv1 this] show ?thesis .
  qed
qed

lemma keeps_catchE:
  assumes m: "keeps m Q" and h: "\<And>e. keeps (h e) Q"
  shows "keeps (catchE m h) Q"
proof (rule keepsI)
  fix w r w'
  assume inv: "uniq_ids w" and run: "catchE m h w = (r, w')"
  obtain r1 w1 where m1: "m w = (r1, w1)" by (cases "m w")
  from keepsD [OF m inv m1] have inv1: "uniq_ids w1" and q: "\<forall>a. r1 = Inr a \<longrightarrow> Q a"
    by simp_all
  show "uniq_ids w' \<and> (\<forall>a. r = Inr a \<longrightarrow> Q a)"
  proof (cases r1)
    case (Inl e)
    with run m1 have "h e w1 = (r, w')" by (simp add: catchE_def)
    from keepsD [OF h inv1 this] show ?thesis .
  next
    case (Inr a)
    with run m1 inv1 q show ?thesis by (auto simp: catchE_def)
  qed
qed

lemma keeps_Date_now: "keeps Date_now (\<lambda>_. True)"
  by (auto simp: keeps_def Date_now_def uniq_ids_def)

lemma keeps_kv_get: "keeps (kv_get k) (\<lambda>r. \<forall>room. r = Some room \<longrightarrow> ok_room room)"
  by (auto simp: keeps_def kv_get_def uniq_ids_def Let_def split: if_splits)

lemma keeps_kv_set: "ok_room v \<Longrightarrow> keeps (kv_set k v secs) (\<lambda>_. True)"
  by (auto simp: keeps_def kv_set_def uniq_ids_def Let_def split: if_splits)

lemma keeps_mapE:
  assumes "\<And>x. keeps (f x) (\<lambda>y. id' y = id' x)"
  shows "keeps (mapE f xs) (\<lambda>ys. map id' ys = map id' xs)"
proof (induction xs)
  case Nil
  show ?case by (simp add: keeps_returnE)
next
  case (Cons x xs)
  show ?case
    unfolding mapE.simps
    by (rule keeps_bindE [OF assms] keeps_bindE [OF Cons.IH] keeps_returnE)+ simp
qed

lemma keeps_stamp_cb:
  "(\<And>now p. id' (upd now p) = id' p) \<Longrightarrow> keeps (stamp_cb sel upd x) (\<lambda>y. id' y = id' x)"
  unfolding stamp_cb_def
  by (auto intro!: keeps_bindE [OF keeps_Date_now] keeps_returnE)

lemma keeps_case_option:
  "(r = None \<Longrightarrow> keeps a R) \<Longrightarrow> (\<And>x. r = Some x \<Longrightarrow> keeps (b x) R)
   \<Longrightarrow> keeps (case r of None \<Rightarrow> a | Some x \<Rightarrow> b x) R"
  by (cases r) auto

lemma keeps_if:
  "(c \<Longrightarrow> keeps a R) \<Longrightarrow> (\<not> c \<Longrightarrow> keeps b R) \<Longrightarrow> keeps (if c then a else b) R"
  by simp

lemma keeps_some: "keeps m ok_room \<Longrightarrow>
  keeps (bindE m (\<lambda>room'. returnE (Some room'))) (\<lambda>r. \<forall>room. r = Some room \<longrightarrow> ok_room room)"
  by (erule keeps_bindE) (simp add: keeps_returnE)

lemma keeps_unit: "keeps m ok_room \<Longrightarrow> keeps (bindE m (\<lambda>_. returnE a)) (\<lambda>_. True)"
  by (erule keeps_bindE) (simp add: keeps_returnE)

lemma keeps_updateRoom: "ok_room st \<Longrightarrow> keeps (updateRoom rid st) ok_room"
  unfolding updateRoom_def Let_def
  by (rule keeps_bindE [OF keeps_Date_now] keeps_bindE [OF keeps_kv_set] keeps_returnE | simp)+

lemma keeps_getRoom: "keeps (getRoom rid) (\<lambda>r. \<forall>room. r = Some room \<longrightarrow> ok_room room)"
  unfolding getRoom_def Let_def
  by (intro keeps_bindE [OF keeps_kv_get] keeps_case_option keeps_bindE [OF keeps_Date_now]
        keeps_if keeps_some keeps_updateRoom keeps_returnE)
     (simp_all add: distinct_map_filter)

lemma keeps_createRoom: "keeps (createRoom rid) ok_room"
  unfolding createRoom_def Let_def
  by (intro keeps_bindE [OF keeps_Date_now] keeps_bindE [OF keeps_kv_set] keeps_returnE)
     simp_all

lemma keeps_vote_cb: "keeps (vote_cb pid v x) (\<lambda>y. id' y = id' x)"
  unfolding vote_cb_stamp by (rule keeps_stamp_cb) simp

lemma keeps_reset_cb: "keeps (reset_cb x) (\<lambda>y. id' y = id' x)"
  unfolding reset_cb_stamp by (rule keeps_stamp_cb) simp

lemma keeps_heartbeat_cb: "keeps (heartbeat_cb pid x) (\<lambda>y. id' y = id' x)"
  unfolding heartbeat_cb_stamp by (rule keeps_stamp_cb) simp

lemma keeps_updatePlayerVote:
  "keeps (updatePlayerVote rid pid v) (\<lambda>_. True)"
  unfolding updatePlayerVote_def
  by (intro keeps_bindE [OF keeps_getRoom] keeps_case_option
        keeps_bindE [OF keeps_mapE] keeps_vote_cb
        keeps_weaken [OF keeps_some] keeps_updateRoom keeps_returnE)
     simp_all

lemma keeps_toggleReveal: "keeps (toggleReveal rid) (\<lambda>_. True)"
  unfolding toggleReveal_def
  by (intro keeps_bindE [OF keeps_getRoom] keeps_case_option
        keeps_weaken [OF keeps_some] keeps_updateRoom keeps_returnE)
     simp_all

lemma keeps_resetVotes: "keeps (resetVotes rid) (\<lambda>_. True)"
  unfolding resetVotes_def
  by (intro keeps_bindE [OF keeps_getRoom] keeps_case_option
        keeps_bindE [OF keeps_mapE] keeps_reset_cb
        keeps_weaken [OF keeps_some] keeps_updateRoom keeps_returnE)
     simp_all

lemma keeps_updatePlayerHeartbeat: "keeps (updatePlayerHeartbeat rid pid) (\<lambda>_. True)"
  unfolding updatePlayerHeartbeat_def
  by (intro keeps_bindE [OF keeps_getRoom] keeps_case_option
        keeps_bindE [OF keeps_mapE] keeps_heartbeat_cb
        keeps_unit keeps_updateRoom keeps_returnE)
     simp_all

lemma ok_after_add:
  assumes "distinct (map id' ps)" and "id' q' = id' q"
  shows "distinct (map id' (if findIndex (\<lambda>p. id' p = id' q) ps \<ge> 0
                            then ps[nat (findIndex (\<lambda>p. id' p = id' q) ps) := q']
                            else ps @ [q']))"
proof (cases "\<exists>x\<in>set ps. id' x = id' q")
  case True
  from findIndex_some [OF this]
  obtain k where k: "k < length ps" "findIndex (\<lambda>p. id' p = id' q) ps = int k"
    "id' (ps ! k) = id' q"
    by blast
  have "map id' (ps[k := q']) = (map id' ps)[k := id' q']" by (rule map_update)
  also have "\<dots> = map id' ps" using k assms(2) by (simp add: list_update_same_conv)
  finally show ?thesis using k assms(1) by simp
next
  case False
  then have "findIndex (\<lambda>p. id' p = id' q) ps = - 1" by (simp add: findIndex_none)
  moreover from False assms(2) have "id' q' \<notin> set (map id' ps)" by auto
  ultimately show ?thesis using assms(1) by simp
qed

lemma keeps_addPlayer: "keeps (addPlayer rid player) (\<lambda>_. True)"
  unfolding addPlayer_def Let_def
  by (intro keeps_bindE [OF keeps_getRoom] keeps_bindE [OF keeps_Date_now]
        keeps_weaken [OF keeps_updateRoom] keeps_bindE [where Q = ok_room]
        keeps_case_option keeps_createRoom keeps_returnE)
     (simp_all add: ok_after_add)

lemma uniq_ids_heap:
  "uniq_ids w \<longleftrightarrow>
     (\<forall>k e. kv w k = Some e \<longrightarrow> distinct (map id' (players (val e))))
     \<and> (\<forall>k r. rooms w k = Some r \<longrightarrow> distinct (map id' (arrs w (o_players (objs w r)))))"
proof -
  have "(\<forall>k g. stored w k = Some g \<longrightarrow> distinct (map id' (players g)))
        \<longleftrightarrow> (\<forall>k r. rooms w k = Some r \<longrightarrow> distinct (map id' (players (room_of w r))))"
    by (simp add: stored_def) blast
  then show ?thesis by (simp add: uniq_ids_def room_of_def)
qed

lemma getRoom_mock_uniq:
  obtains (absent) "getRoom_mock rid w = (Inr None, w)"
  | (present) r w0 where "getRoom_mock rid w = (Inr (Some r), w0)"
      and "rooms w0 (room_key rid) = Some r"
      and "uniq_ids w \<Longrightarrow> uniq_ids w0"
proof (cases "rooms w (room_key rid)")
  case None
  then show ?thesis by (intro absent getRoom_mock_absent)
next
  case (Some r)
  let ?ps = "arrs w (o_players (objs w r))"
  let ?act = "filter (\<lambda>p. clock w (tick w) - lastSeen p < 300000) ?ps"
  show ?thesis
  proof (cases "length ?act = length ?ps")
    case True
    with getRoom_mock_present [OF Some] Some show ?thesis
      by (intro present [of r "w\<lparr>tick := Suc (tick w)\<rparr>"])
         (simp_all add: uniq_ids_heap)
  next
    case False
    have "uniq_ids (w\<lparr>tick := Suc (Suc (tick w)),
              arrs := (arrs w)(next_ref w := ?act),
              next_ref := Suc (next_ref w),
              objs := (objs w)(r := (objs w r)\<lparr>o_players := next_ref w,
                                               o_lastActivity := clock w (Suc (tick w))\<rparr>),
              rooms := (rooms w)(room_key rid \<mapsto> r)\<rparr>)" if u: "uniq_ids w"
    proof -
      from u Some have "distinct (map id' ?ps)" by (simp add: uniq_ids_heap)
      then have "distinct (map id' ?act)" by (rule distinct_map_filter)
      with u show ?thesis by (auto simp: uniq_ids_heap split: if_splits)
    qed
    with False getRoom_mock_present [OF Some] show ?thesis
      by (intro present [of r "w\<lparr>tick := Suc (Suc (tick w)),
              arrs := (arrs w)(next_ref w := ?act),
              next_ref := Suc (next_ref w),
              objs := (objs w)(r := (objs w r)\<lparr>o_players := next_ref w,
                                               o_lastActivity := clock w (Suc (tick w))\<rparr>),
              rooms := (rooms w)(room_key rid \<mapsto> r)\<rparr>"])
         simp_all
  qed
qed

lemma keeps_getRoom_mock: "keeps (getRoom_mock rid) (\<lambda>_. True)"
proof (rule keepsI)
  fix w r w' assume u: "uniq_ids w" and run: "getRoom_mock rid w = (r, w')"
  show "uniq_ids w' \<and> (\<forall>a. r = Inr a \<longrightarrow> True)"
    using u run by (cases rule: getRoom_mock_uniq [of rid w]) auto
qed

lemma keeps_createRoom_mock: "keeps (createRoom_mock rid) (\<lambda>_. True)"
  by (rule keepsI) (auto simp: createRoom_mock_apply uniq_ids_heap split: if_splits)

lemma keeps_updatePlayerVote_mock: "keeps (updatePlayerVote_mock rid pid v) (\<lambda>_. True)"
proof (rule keepsI)
  fix w r w' assume u: "uniq_ids w" and run: "updatePlayerVote_mock rid pid v w = (r, w')"
  show "uniq_ids w' \<and> (\<forall>a. r = Inr a \<longrightarrow> True)"
  proof (cases rule: getRoom_mock_uniq [of rid w])
    case absent
    with u run show ?thesis by (simp add: updatePlayerVote_mock_none)
  next
    case (present r0 w0)
    from present(3) [OF u] have u0: "uniq_ids w0" .
    with present(2) have "distinct (map id' (arrs w0 (o_players (objs w0 r0))))"
      by (simp add: uniq_ids_heap)
    then have "distinct (map id' (stamp_from (clock w0) (tick w0) (\<lambda>p. id' p = pid)
                (\<lambda>now p. p\<lparr>vote := Some v, hasVoted := True, lastSeen := now\<rparr>)
                (arrs w0 (o_players (objs w0 r0)))))"
      by (simp add: map_stamp_from)
    with u0 run show ?thesis
      by (auto simp: updatePlayerVote_mock_after [OF present(1)] Let_def uniq_ids_heap split: if_splits)
  qed
qed

lemma keeps_toggleReveal_mock: "keeps (toggleReveal_mock rid) (\<lambda>_. True)"
proof (rule keepsI)
  fix w r w' assume u: "uniq_ids w" and run: "toggleReveal_mock rid w = (r, w')"
  show "uniq_ids w' \<and> (\<forall>a. r = Inr a \<longrightarrow> True)"
  proof (cases rule: getRoom_mock_uniq [of rid w])
    case absent
    with u run show ?thesis by (simp add: toggleReveal_mock_none)
  next
    case (present r0 w0)
    from present(3) [OF u] have u0: "uniq_ids w0" .
    with present(2) run show ?thesis
      by (auto simp: toggleReveal_mock_after [OF present(1)] uniq_ids_heap split: if_splits)
  qed
qed

lemma keeps_resetVotes_mock: "keeps (resetVotes_mock rid) (\<lambda>_. True)"
proof (rule keepsI)
  fix w r w' assume u: "uniq_ids w" and run: "resetVotes_mock rid w = (r, w')"
  show "uniq_ids w' \<and> (\<forall>a. r = Inr a \<longrightarrow> True)"
  proof (cases rule: getRoom_mock_uniq [of rid w])
    case absent
    with u run show ?thesis by (simp add: resetVotes_mock_none)
  next
    case (present r0 w0)
    from present(3) [OF u] have u0: "uniq_ids w0" .
    with present(2) have "distinct (map id' (arrs w0 (o_players (objs w0 r0))))"
      by (simp add: uniq_ids_heap)
    then have "distinct (map id' (stamp_from (clock w0) (tick w0) (\<lambda>p. True)
                (\<lambda>now p. p\<lparr>vote := None, hasVoted := False, lastSeen := now\<rparr>)
                (arrs w0 (o_players (objs w0 r0)))))"
      by (simp add: map_stamp_from)
    with u0 run show ?thesis
      by (auto simp: resetVotes_mock_after [OF present(1)] Let_def uniq_ids_heap split: if_splits)
  qed
qed

lemma keeps_updatePlayerHeartbeat_mock:
  "keeps (updatePlayerHeartbeat_mock rid pid) (\<lambda>_. True)"
proof (rule keepsI)
  fix w r w' assume u: "uniq_ids w" and run: "updatePlayerHeartbeat_mock rid pid w = (r, w')"
  show "uniq_ids w' \<and> (\<forall>a. r = Inr a \<longrightarrow> True)"
  proof (cases rule: getRoom_mock_uniq [of rid w])
    case absent
    with u run show ?thesis by (simp add: updatePlayerHeartbeat_mock_none)
  next
    case (present r0 w0)
    from present(3) [OF u] have u0: "uniq_ids w0" .
    with present(2) have "distinct (map id' (arrs w0 (o_players (objs w0 r0))))"
      by (simp add: uniq_ids_heap)
    then have "distinct (map id' (stamp_from (clock w0) (tick w0) (\<lambda>p. id' p = pid)
                (\<lambda>now p. p\<lparr>lastSeen := now\<rparr>)
                (arrs w0 (o_players (objs w0 r0)))))"
      by (simp add: map_stamp_from)
    with u0 run show ?thesis
      by (auto simp: updatePlayerHeartbeat_mock_after [OF present(1)] Let_def uniq_ids_heap split: if_splits)
  qed
qed

lemma keeps_addPlayer_mock: "keeps (addPlayer_mock rid player) (\<lambda>_. True)"
proof (rule keepsI)
  fix w r w' assume u: "uniq_ids w" and run: "addPlayer_mock rid player w = (r, w')"
  show "uniq_ids w' \<and> (\<forall>a. r = Inr a \<longrightarrow> True)"
  proof (cases rule: getRoom_mock_uniq [of rid w])
    case absent
    with u run show ?thesis
      by (auto simp: addPlayer_mock_created [OF absent] uniq_ids_heap split: if_splits)
  next
    case (present r0 w0)
    from present(3) [OF u] have u0: "uniq_ids w0" .
    with present(2) have "distinct (map id' (arrs w0 (o_players (objs w0 r0))))"
      by (simp add: uniq_ids_heap)
    from ok_after_add [OF this refl, of player]
    have "distinct (map id'
            (if findIndex (\<lambda>p. id' p = id' player) (arrs w0 (o_players (objs w0 r0))) \<ge> 0
             then (arrs w0 (o_players (objs w0 r0)))
                    [nat (findIndex (\<lambda>p. id' p = id' player)
                           (arrs w0 (o_players (objs w0 r0)))) := player]
             else arrs w0 (o_players (objs w0 r0)) @ [player]))" .
    with u0 run show ?thesis
      by (auto simp: addPlayer_mock_after [OF present(1)] Let_def uniq_ids_heap
          split: if_splits)
  qed
qed

lemma keeps_json_of: "keeps (json_of r) (\<lambda>_. True)"
  by (rule keepsI) (auto simp: json_of_def)

lemma keeps_json_of_opt: "keeps (json_of_opt r) (\<lambda>_. True)"
  by (rule keepsI) (auto simp: json_of_opt_def)

lemma keeps_redis_getRoom: "keeps (redis_getRoom u rid) (\<lambda>_. True)"
  unfolding redis_getRoom_def
  by (intro keeps_if keeps_weaken [OF keeps_getRoom] keeps_bindE [OF keeps_getRoom_mock]
        keeps_json_of_opt TrueI)

lemma keeps_redis_addPlayer: "keeps (redis_addPlayer u rid player) (\<lambda>_. True)"
  unfolding redis_addPlayer_def
  by (intro keeps_if keeps_addPlayer keeps_bindE [OF keeps_addPlayer_mock] keeps_json_of)

lemma keeps_redis_updatePlayerVote: "keeps (redis_updatePlayerVote u rid pid v) (\<lambda>_. True)"
  unfolding redis_updatePlayerVote_def
  by (intro keeps_if keeps_weaken [OF keeps_updatePlayerVote]
        keeps_bindE [OF keeps_updatePlayerVote_mock] keeps_json_of_opt TrueI)

lemma keeps_redis_toggleReveal: "keeps (redis_toggleReveal u rid) (\<lambda>_. True)"
  unfolding redis_toggleReveal_def
  by (intro keeps_if keeps_toggleReveal keeps_bindE [OF keeps_toggleReveal_mock]
        keeps_json_of_opt)

lemma keeps_redis_resetVotes: "keeps (redis_resetVotes u rid) (\<lambda>_. True)"
  unfolding redis_resetVotes_def
  by (intro keeps_if keeps_resetVotes keeps_bindE [OF keeps_resetVotes_mock]
        keeps_json_of_opt)

lemma keeps_redis_updatePlayerHeartbeat:
  "keeps (redis_updatePlayerHeartbeat u rid pid) (\<lambda>_. True)"
  unfolding redis_updatePlayerHeartbeat_def
  by (intro keeps_if keeps_updatePlayerHeartbeat keeps_updatePlayerHeartbeat_mock)

lemma keeps_answer: "keeps m Q \<Longrightarrow> keeps (bindE m (\<lambda>x. returnE (f x))) (\<lambda>_. True)"
  by (erule keeps_bindE) (simp add: keeps_returnE)

lemma keeps_GET: "keeps (GET u rid) (\<lambda>_. True)"
  unfolding GET_def by (rule keeps_answer [OF keeps_redis_getRoom])

lemma keeps_POST: "keeps (POST u rid req) (\<lambda>_. True)"
proof (cases req)
  case None
  then show ?thesis by (simp add: POST_def keeps_throwE)
next
  case (Some b)
  show ?thesis
    unfolding POST_def Some option.case Let_def
    by (intro keeps_catchE keeps_if keeps_bindE [OF keeps_Date_now] keeps_returnE
          keeps_answer [OF keeps_redis_addPlayer] keeps_answer [OF keeps_redis_updatePlayerVote]
          keeps_answer [OF keeps_redis_toggleReveal] keeps_answer [OF keeps_redis_resetVotes]
          keeps_answer [OF keeps_redis_updatePlayerHeartbeat] TrueI)
qed

lemma uniq_ids_handle: "uniq_ids w \<Longrightarrow> uniq_ids (handle u q w)"
proof (cases q)
  case (Fetch rid)
  assume "uniq_ids w"
  from keepsD [OF keeps_GET this, of u rid "fst (GET u rid w)" "snd (GET u rid w)"] Fetch
  show ?thesis by simp
next
  case (Submit rid req)
  assume "uniq_ids w"
  from keepsD [OF keeps_POST this, of u rid req "fst (POST u rid req w)" "snd (POST u rid req w)"]
    Submit
  show ?thesis by simp
qed

lemma uniq_ids_serve: "uniq_ids w \<Longrightarrow> uniq_ids (serve u qs w)"
  by (induction qs arbitrary: w) (simp_all add: uniq_ids_handle)

lemma uniq_ids_created:
  assumes "kv w = Map.empty" and "rooms w = Map.empty"
  shows "uniq_ids (if u then snd (createRoom rid w) else snd (createRoom_mock rid w))"
proof -
  from assms have inv: "uniq_ids w" by (simp add: uniq_ids_heap)
  show ?thesis
  proof (cases u)
    case True
    from keepsD [OF keeps_createRoom inv, of rid "fst (createRoom rid w)" "snd (createRoom rid w)"]
      True
    show ?thesis by simp
  next
    case False
    from keepsD [OF keeps_createRoom_mock inv, of rid "fst (createRoom_mock rid w)"
        "snd (createRoom_mock rid w)"] False
    show ?thesis by simp
  qed
qed

subsection \<open>The two modules side by side\<close>

text \<open>
  A write of both modules under one key: the first puts there the room that the object
  of the second reads afterwards. The object is held under no other key, and the second
  module has changed no other object and no array that was handed out before.
\<close>

lemma agree_write:
  assumes rel: "\<forall>k. map_option val (kv w1 k) = stored w2 k"
    and exp: "\<forall>k. kv w1 k \<noteq> kv w k \<longrightarrow> map_option ex (kv w1 k) = Some (Some 86400)"
    and ok: "heap_ok w2"
    and only: "\<forall>k. k \<noteq> key \<longrightarrow> rooms w2 k \<noteq> Some r"
    and kv': "kv w1' = (kv w1)(key \<mapsto> \<lparr>val = room_of w2' r, ex = Some 86400\<rparr>)"
    and rooms': "rooms w2' = (rooms w2)(key \<mapsto> r)"
    and objs': "\<forall>r'. r' \<noteq> r \<longrightarrow> objs w2' r' = objs w2 r'"
    and arrs': "\<forall>a. a < next_ref w2 \<longrightarrow> arrs w2' a = arrs w2 a"
    and nr: "next_ref w2 \<le> next_ref w2'"
    and own: "r < next_ref w2'" "o_players (objs w2' r) < next_ref w2'"
    and ret: "a = view w2' b"
  shows "agree_from view w (Inr a, w1') (Inr b, w2')"
proof -
  have other: "room_of w2' r' = room_of w2 r'" "r' \<noteq> r" "r' < next_ref w2'"
    "o_players (objs w2' r') < next_ref w2'"
    if "rooms w2 k = Some r'" "k \<noteq> key" for k r'
  proof -
    from that only show ne: "r' \<noteq> r" by auto
    from ok that(1) have b: "r' < next_ref w2" "o_players (objs w2 r') < next_ref w2"
      by (auto simp: heap_ok_def)
    from ne objs' have o: "objs w2' r' = objs w2 r'" by simp
    with b arrs' show "room_of w2' r' = room_of w2 r'" by (simp add: room_of_def)
    from b nr show "r' < next_ref w2'" by simp
    from b nr o show "o_players (objs w2' r') < next_ref w2'" by simp
  qed
  have st: "map_option val (kv w1' k) = stored w2' k" for k
  proof (cases "k = key")
    case True
    then show ?thesis by (simp add: kv' rooms' stored_def)
  next
    case False
    show ?thesis
    proof (cases "rooms w2 k")
      case None
      with False rel [rule_format, of k] show ?thesis by (simp add: kv' rooms' stored_def)
    next
      case (Some r')
      with False rel [rule_format, of k] other(1) [OF Some False] show ?thesis
        by (simp add: kv' rooms' stored_def)
    qed
  qed
  have ex': "kv w1' k \<noteq> kv w k \<longrightarrow> map_option ex (kv w1' k) = Some (Some 86400)" for k
    using exp [rule_format, of k] by (simp add: kv')
  have uniq: "k = k'" if "rooms w2' k = Some x" "rooms w2' k' = Some x" for k k' x
  proof (cases "k = key")
    case True
    with that(1) have x: "x = r" by (simp add: rooms')
    show ?thesis
    proof (cases "k' = key")
      case True
      with \<open>k = key\<close> show ?thesis by simp
    next
      case False
      with that(2) x only show ?thesis by (simp add: rooms')
    qed
  next
    case False
    with that(1) have k: "rooms w2 k = Some x" by (simp add: rooms')
    show ?thesis
    proof (cases "k' = key")
      case True
      with that(2) have "x = r" by (simp add: rooms')
      with k False only show ?thesis by simp
    next
      case False
      with that(2) have "rooms w2 k' = Some x" by (simp add: rooms')
      with k ok show ?thesis by (auto simp: heap_ok_def)
    qed
  qed
  have bnd: "x < next_ref w2' \<and> o_players (objs w2' x) < next_ref w2'"
    if "rooms w2' k = Some x" for k x
  proof (cases "k = key")
    case True
    with that have "x = r" by (simp add: rooms')
    with own show ?thesis by simp
  next
    case False
    with that have "rooms w2 k = Some x" by (simp add: rooms')
    from other(3,4) [OF this False] show ?thesis by simp
  qed
  from uniq bnd have "heap_ok w2'" unfolding heap_ok_def by blast
  with st ex' ret show ?thesis by (simp add: agree_from_def)
qed

lemma agree_read:
  assumes "\<forall>k. map_option val (kv w k) = stored w k" and "heap_ok w"
    and "kv w1 = kv w" and "rooms w2 = rooms w" and "objs w2 = objs w" and "arrs w2 = arrs w"
    and "next_ref w2 = next_ref w" and "a = view w2 b"
  shows "agree_from view w (Inr a, w1) (Inr b, w2)"
proof -
  from assms(4-6) have "room_of w2 = room_of w" by (simp add: room_of_def fun_eq_iff)
  with assms show ?thesis by (simp add: agree_from_def heap_ok_def stored_def)
qed

lemma rel_refl_written:
  "\<forall>k. kv w k \<noteq> kv w k \<longrightarrow> map_option ex (kv w k) = Some (Some 86400)"
  by simp

lemma heap_ok_only:
  "heap_ok w \<Longrightarrow> rooms w key = Some r \<Longrightarrow> \<forall>k. k \<noteq> key \<longrightarrow> rooms w k \<noteq> Some r"
  by (auto simp: heap_ok_def)

lemma heap_ok_bounds:
  "heap_ok w \<Longrightarrow> rooms w key = Some r \<Longrightarrow> r < next_ref w \<and> o_players (objs w r) < next_ref w"
  by (auto simp: heap_ok_def)

text \<open>The two fetches, started in one world whose two stores hold the same rooms.\<close>

lemma getRoom_pair:
  assumes rel: "\<forall>k. map_option val (kv w k) = stored w k"
    and up: "\<forall>n. \<not> kv_fails w n"
    and ok: "heap_ok w"
  obtains (absent) w1 where "getRoom rid w = (Inr None, w1)"
      and "getRoom_mock rid w = (Inr None, w)"
      and "kv w1 = kv w"
  | (present) r w1 w2 where "getRoom rid w = (Inr (Some (room_of w2 r)), w1)"
      and "getRoom_mock rid w = (Inr (Some r), w2)"
      and "tick w1 = tick w2" and "clock w1 = clock w2" and "kv_fails w1 = kv_fails w"
      and "rooms w2 (room_key rid) = Some r"
      and "\<forall>k. map_option val (kv w1 k) = stored w2 k"
      and "\<forall>k. kv w1 k \<noteq> kv w k \<longrightarrow> map_option ex (kv w1 k) = Some (Some 86400)"
      and "heap_ok w2"
proof (cases "kv w (room_key rid)")
  case None
  with rel [rule_format, of "room_key rid"] have "rooms w (room_key rid) = None"
    by (simp add: stored_def)
  then have m: "getRoom_mock rid w = (Inr None, w)" by (rule getRoom_mock_absent)
  from up have "\<not> kv_fails w (kv_calls w)" by simp
  from getRoom_absent [OF None this] m show ?thesis
    by (intro absent [of "w\<lparr>kv_calls := Suc (kv_calls w)\<rparr>"]) simp_all
next
  case (Some e)
  with rel [rule_format, of "room_key rid"]
  obtain r where g: "rooms w (room_key rid) = Some r" and e: "val e = room_of w r"
    by (cases "rooms w (room_key rid)") (auto simp: stored_def)
  from ok g have b: "r < next_ref w" "o_players (objs w r) < next_ref w"
    by (auto simp: heap_ok_def)
  let ?ps = "arrs w (o_players (objs w r))"
  let ?act = "filter (\<lambda>p. clock w (tick w) - lastSeen p < 300000) ?ps"
  have ps: "players (val e) = ?ps" by (simp add: e room_of_def)
  show ?thesis
  proof (cases "length ?act = length ?ps")
    case True
    then have act: "?act = ?ps" by (rule filter_length_eq)
    have "getRoom rid w
            = (Inr (Some (val e)), w\<lparr>tick := Suc (tick w), kv_calls := Suc (kv_calls w)\<rparr>)"
      using getRoom_present [OF Some up] act by (simp add: ps Let_def)
    moreover have "getRoom_mock rid w = (Inr (Some r), w\<lparr>tick := Suc (tick w)\<rparr>)"
      using getRoom_mock_present [OF g] True by simp
    ultimately show ?thesis using rel ok g
      by (intro present [of "w\<lparr>tick := Suc (tick w)\<rparr>" r
            "w\<lparr>tick := Suc (tick w), kv_calls := Suc (kv_calls w)\<rparr>"])
         (simp_all add: e heap_ok_def)
  next
    case False
    let ?room = "(val e)\<lparr>players := ?act, lastActivity := clock w (Suc (tick w))\<rparr>"
    let ?w1 = "w\<lparr>tick := Suc (Suc (tick w)), kv_calls := Suc (Suc (kv_calls w)),
               kv := (kv w)(room_key rid \<mapsto> \<lparr>val = ?room, ex = Some 86400\<rparr>)\<rparr>"
    let ?w2 = "w\<lparr>tick := Suc (Suc (tick w)),
              arrs := (arrs w)(next_ref w := ?act),
              next_ref := Suc (next_ref w),
              objs := (objs w)(r := (objs w r)\<lparr>o_players := next_ref w,
                                               o_lastActivity := clock w (Suc (tick w))\<rparr>),
              rooms := (rooms w)(room_key rid \<mapsto> r)\<rparr>"
    have r1: "getRoom rid w = (Inr (Some ?room), ?w1)"
      using getRoom_present [OF Some up] False by (simp add: ps Let_def)
    have r2: "getRoom_mock rid w = (Inr (Some r), ?w2)"
      using getRoom_mock_present [OF g] False by simp
    have room: "room_of ?w2 r = ?room"
      by (simp add: room_of_def e)
    have "agree_from (\<lambda>w'. map_option (room_of w')) w (Inr (Some ?room), ?w1) (Inr (Some r), ?w2)"
      by (rule agree_write [OF rel rel_refl_written ok heap_ok_only [OF ok g]])
         (simp_all add: room_of_def e b less_SucI)
    then have a1: "\<forall>k. map_option val (kv ?w1 k) = stored ?w2 k"
      and a2: "\<forall>k. kv ?w1 k \<noteq> kv w k \<longrightarrow> map_option ex (kv ?w1 k) = Some (Some 86400)"
      and a3: "heap_ok ?w2"
      unfolding agree_from_def snd_conv by blast+
    show ?thesis
    proof (rule present [of ?w2 r ?w1])
      show "getRoom rid w = (Inr (Some (room_of ?w2 r)), ?w1)"
        using r1 by (simp only: room)
      show "getRoom_mock rid w = (Inr (Some r), ?w2)" by (rule r2)
      show "tick ?w1 = tick ?w2" "clock ?w1 = clock ?w2" "kv_fails ?w1 = kv_fails w"
        "rooms ?w2 (room_key rid) = Some r"
        by simp_all
    qed (rule a1 a2 a3)+
  qed
qed

lemma agree_getRoom:
  assumes rel: "\<forall>k. map_option val (kv w k) = stored w k" and up: "\<forall>n. \<not> kv_fails w n"
    and ok: "heap_ok w"
  shows "agree_from (\<lambda>w'. map_option (room_of w')) w (getRoom rid w) (getRoom_mock rid w)"
  using rel up ok
proof (cases rule: getRoom_pair [where rid = rid])
  case (absent w1)
  with rel ok show ?thesis by (simp add: agree_read)
next
  case (present r w1 w2)
  then show ?thesis by (simp add: agree_from_def)
qed

lemma agree_createRoom:
  assumes rel: "\<forall>k. map_option val (kv w k) = stored w k" and up: "\<forall>n. \<not> kv_fails w n"
    and ok: "heap_ok w"
  shows "agree_from room_of w (createRoom rid w) (createRoom_mock rid w)"
proof -
  from up have nf: "\<not> kv_fails w (kv_calls w)" by simp
  have only: "\<forall>k. k \<noteq> room_key rid \<longrightarrow> rooms w k \<noteq> Some (Suc (next_ref w))"
    using ok by (fastforce simp: heap_ok_def)
  show ?thesis
    unfolding createRoom_ok [OF nf] createRoom_mock_apply Let_def
    by (rule agree_write [OF rel rel_refl_written ok only])
       (simp_all add: room_of_def)
qed

lemma agree_updateRoom:
  assumes rel: "\<forall>k. map_option val (kv w k) = stored w k" and up: "\<forall>n. \<not> kv_fails w n"
    and ok: "heap_ok w"
    and only: "\<forall>k. k \<noteq> room_key rid \<longrightarrow> rooms w k \<noteq> Some s"
    and b: "s < next_ref w" "o_players (objs w s) < next_ref w"
  shows "agree_from (\<lambda>w' _. room_of w' s) w
           (updateRoom rid (room_of w s) w) (updateRoom_mock rid s w)"
proof -
  from up have nf: "\<not> kv_fails w (kv_calls w)" by simp
  show ?thesis
    unfolding updateRoom_ok [OF nf] updateRoom_mock_apply
    by (rule agree_write [OF rel rel_refl_written ok only])
       (simp_all add: room_of_def b)
qed

lemma agree_updatePlayerVote:
  assumes rel: "\<forall>k. map_option val (kv w k) = stored w k" and up: "\<forall>n. \<not> kv_fails w n"
    and ok: "heap_ok w"
  shows "agree_from (\<lambda>w'. map_option (room_of w')) w
           (updatePlayerVote rid pid v w) (updatePlayerVote_mock rid pid v w)"
  using rel up ok
proof (cases rule: getRoom_pair [where rid = rid])
  case (absent w1)
  with rel ok show ?thesis
    by (simp add: updatePlayerVote_none updatePlayerVote_mock_none agree_read)
next
  case (present r w1 w2)
  from present(5) up have nf: "\<not> kv_fails w1 (kv_calls w1)" by simp
  note b = heap_ok_bounds [OF present(9,6)]
  show ?thesis
    unfolding updatePlayerVote_after [OF present(1) nf]
      updatePlayerVote_mock_after [OF present(2)] Let_def
    by (rule agree_write [OF present(7,8,9) heap_ok_only [OF present(9,6)]])
       (simp_all add: room_of_def present(3,4) b less_SucI)
qed

lemma agree_toggleReveal:
  assumes rel: "\<forall>k. map_option val (kv w k) = stored w k" and up: "\<forall>n. \<not> kv_fails w n"
    and ok: "heap_ok w"
  shows "agree_from (\<lambda>w'. map_option (room_of w')) w (toggleReveal rid w) (toggleReveal_mock rid w)"
  using rel up ok
proof (cases rule: getRoom_pair [where rid = rid])
  case (absent w1)
  with rel ok show ?thesis
    by (simp add: toggleReveal_none toggleReveal_mock_none agree_read)
next
  case (present r w1 w2)
  from present(5) up have nf: "\<not> kv_fails w1 (kv_calls w1)" by simp
  note b = heap_ok_bounds [OF present(9,6)]
  show ?thesis
    unfolding toggleReveal_after [OF present(1) nf]
      toggleReveal_mock_after [OF present(2)] Let_def
    by (rule agree_write [OF present(7,8,9) heap_ok_only [OF present(9,6)]])
       (simp_all add: room_of_def present(3,4) b less_SucI)
qed

lemma agree_resetVotes:
  assumes rel: "\<forall>k. map_option val (kv w k) = stored w k" and up: "\<forall>n. \<not> kv_fails w n"
    and ok: "heap_ok w"
  shows "agree_from (\<lambda>w'. map_option (room_of w')) w (resetVotes rid w) (resetVotes_mock rid w)"
  using rel up ok
proof (cases rule: getRoom_pair [where rid = rid])
  case (absent w1)
  with rel ok show ?thesis
    by (simp add: resetVotes_none resetVotes_mock_none agree_read)
next
  case (present r w1 w2)
  from present(5) up have nf: "\<not> kv_fails w1 (kv_calls w1)" by simp
  note b = heap_ok_bounds [OF present(9,6)]
  show ?thesis
    unfolding resetVotes_after [OF present(1) nf]
      resetVotes_mock_after [OF present(2)] Let_def
    by (rule agree_write [OF present(7,8,9) heap_ok_only [OF present(9,6)]])
       (simp_all add: room_of_def present(3,4) b less_SucI)
qed

lemma agree_updatePlayerHeartbeat:
  assumes rel: "\<forall>k. map_option val (kv w k) = stored w k" and up: "\<forall>n. \<not> kv_fails w n"
    and ok: "heap_ok w"
  shows "agree_from (\<lambda>_ u. u) w
           (updatePlayerHeartbeat rid pid w) (updatePlayerHeartbeat_mock rid pid w)"
  using rel up ok
proof (cases rule: getRoom_pair [where rid = rid])
  case (absent w1)
  with rel ok show ?thesis
    by (simp add: updatePlayerHeartbeat_none updatePlayerHeartbeat_mock_none agree_read)
next
  case (present r w1 w2)
  from present(5) up have nf: "\<not> kv_fails w1 (kv_calls w1)" by simp
  note b = heap_ok_bounds [OF present(9,6)]
  show ?thesis
    unfolding updatePlayerHeartbeat_after [OF present(1) nf]
      updatePlayerHeartbeat_mock_after [OF present(2)] Let_def
    by (rule agree_write [OF present(7,8,9) heap_ok_only [OF present(9,6)]])
       (simp_all add: room_of_def present(3,4) b less_SucI)
qed

section \<open>The claims\<close>

subsection \<open>C1\<close>

text \<open>
  C1, as the claim states it, fails: the stored room of \<open>world_r1\<close> contains the
  participant \<open>p1\<close>, who is stale at the time of the request; the vote of \<open>p1\<close> is
  answered with a room in which \<open>p1\<close> is no more, and the stored list has lost \<open>p1\<close>.
\<close>

theorem vote_on_stale_participant_counterexample:
  "map_option (map id' \<circ> players \<circ> val) (kv world_r1 (room_key ''r1'')) = Some [''p1'', ''p2'']
   \<and> fst (POST True ''r1'' (Some vote_p1) world_r1)
       = Inr \<lparr>status = 200,
               json = RoomJson (room_r1\<lparr>players := [player_p2], lastActivity := 1000000\<rparr>)\<rparr>
   \<and> map_option (players \<circ> val) (kv (snd (POST True ''r1'' (Some vote_p1) world_r1)) (room_key ''r1''))
       = Some [player_p2]"
  by (simp add: POST_def room_or_404_def vote_p1_def redis_defs io_defs example_defs Let_def)

text \<open>
  C1, amended. While the key-value service answers: when no record exists for the room,
  \<open>updatePlayerVote\<close> returns null, the route answers 404 and no room is created.
  When the record exists, the participants that are stale at the fetch
  (\<open>now - lastSeen \<ge> 300000\<close>) are pruned first; of the remaining participants, every one
  with the identifier of the request gets the vote of the request, \<open>hasVoted = True\<close> and
  as \<open>lastSeen\<close> a reading of the clock taken during the request, and every other one
  is left as it was; when the identifier matches none of the remaining participants,
  the resulting list is the pruned list. No error is raised; the resulting room is the
  one stored and the one returned.
\<close>

theorem vote_marks_active_matches:
  fixes w :: world and b :: body
  defines "act \<equiv> \<lambda>e. filter (\<lambda>p. clock w (tick w) - lastSeen p < 300000) (players (val e))"
  assumes up: "\<forall>n. \<not> kv_fails w n"
    and act_vote: "action b = ''vote''"
    and run: "POST True rid (Some b) w = (r, w')"
  shows "(kv w (room_key rid) = None \<longrightarrow>
            fst (updatePlayerVote rid (playerId b) (vote_body b) w) = Inr None
            \<and> r = Inr \<lparr>status = 404, json = ErrorJson ''Room not found''\<rparr>
            \<and> kv w' = kv w)
       \<and> (\<forall>e. kv w (room_key rid) = Some e \<longrightarrow>
            (\<exists>room. r = Inr \<lparr>status = 200, json = RoomJson room\<rparr>
               \<and> map_option val (kv w' (room_key rid)) = Some room
               \<and> length (players room) = length (act e)
               \<and> (\<forall>i<length (act e).
                    if id' (act e ! i) = playerId b
                    then \<exists>n. tick w \<le> n \<and> n < tick w'
                           \<and> players room ! i
                             = (act e ! i)\<lparr>vote := Some (vote_body b), hasVoted := True,
                                            lastSeen := clock w n\<rparr>
                    else players room ! i = act e ! i)
               \<and> (playerId b \<notin> id' ` set (act e) \<longrightarrow> players room = act e)))"
proof (intro conjI allI impI)
  assume none: "kv w (room_key rid) = None"
  from up have "\<not> kv_fails w (kv_calls w)" by simp
  from getRoom_absent [OF none this]
  have v: "updatePlayerVote rid (playerId b) (vote_body b) w
             = (Inr None, w\<lparr>kv_calls := Suc (kv_calls w)\<rparr>)"
    by (rule updatePlayerVote_none)
  then show "fst (updatePlayerVote rid (playerId b) (vote_body b) w) = Inr None" by simp
  from run v show "r = Inr \<lparr>status = 404, json = ErrorJson ''Room not found''\<rparr>"
    by (simp add: POST_vote [OF act_vote] room_or_404_def)
  from run v show "kv w' = kv w"
    by (auto simp: POST_vote [OF act_vote])
next
  fix e
  assume some: "kv w (room_key rid) = Some e"
  let ?sel = "\<lambda>p. id' p = playerId b"
  let ?upd = "\<lambda>now p. p\<lparr>vote := Some (vote_body b), hasVoted := True, lastSeen := now\<rparr>"
  from getRoom_ok [OF some up]
  obtain room0 w0 where g: "getRoom rid w = (Inr (Some room0), w0)"
    and ps0: "players room0 = act e"
    and same: "kv_fails w0 = kv_fails w" "clock w0 = clock w"
    and tk: "tick w < tick w0"
    unfolding act_def by blast
  from up same have "\<not> kv_fails w0 (kv_calls w0)" by simp
  note v = updatePlayerVote_after [OF g this, of "playerId b" "vote_body b"]
  let ?t = "tick w0 + length (filter ?sel (act e))"
  let ?room = "room0\<lparr>players := stamp_from (clock w) (tick w0) ?sel ?upd (act e),
                      lastActivity := clock w ?t\<rparr>"
  from run v have r: "r = Inr \<lparr>status = 200, json = RoomJson ?room\<rparr>"
    and kv': "map_option val (kv w' (room_key rid)) = Some ?room"
    and tk': "tick w' = Suc ?t"
    by (auto simp: POST_vote [OF act_vote] room_or_404_def Let_def ps0 same)
  have nth: "if id' (act e ! i) = playerId b
             then \<exists>n. tick w \<le> n \<and> n < tick w'
                    \<and> players ?room ! i
                      = (act e ! i)\<lparr>vote := Some (vote_body b), hasVoted := True,
                                     lastSeen := clock w n\<rparr>
             else players ?room ! i = act e ! i" if i: "i < length (act e)" for i
  proof (cases "id' (act e ! i) = playerId b")
    case True
    let ?n = "tick w0 + length (filter ?sel (take i (act e)))"
    have "tick w \<le> ?n" using tk by simp
    moreover have "?n < tick w'"
      using length_filter_take_le [of ?sel i "act e"] by (simp add: tk')
    moreover have "players ?room ! i = ?upd (clock w ?n) (act e ! i)"
      using True i by (simp add: nth_stamp_from)
    ultimately show ?thesis using True by auto
  next
    case False
    with i show ?thesis by (simp add: nth_stamp_from)
  qed
  have none: "players ?room = act e" if "playerId b \<notin> id' ` set (act e)"
  proof -
    from that have "\<forall>p\<in>set (act e). \<not> ?sel p" by (metis imageI)
    then show ?thesis by (simp add: stamp_from_none)
  qed
  show "\<exists>room. r = Inr \<lparr>status = 200, json = RoomJson room\<rparr>
               \<and> map_option val (kv w' (room_key rid)) = Some room
               \<and> length (players room) = length (act e)
               \<and> (\<forall>i<length (act e).
                    if id' (act e ! i) = playerId b
                    then \<exists>n. tick w \<le> n \<and> n < tick w'
                           \<and> players room ! i
                             = (act e ! i)\<lparr>vote := Some (vote_body b), hasVoted := True,
                                            lastSeen := clock w n\<rparr>
                    else players room ! i = act e ! i)
               \<and> (playerId b \<notin> id' ` set (act e) \<longrightarrow> players room = act e)"
  proof (intro exI [of _ ?room] conjI allI impI)
    show "r = Inr \<lparr>status = 200, json = RoomJson ?room\<rparr>" by (rule r)
    show "map_option val (kv w' (room_key rid)) = Some ?room" by (rule kv')
    show "length (players ?room) = length (act e)" by simp
  qed (use nth none in blast)+
qed

theorem vote_marks_active_matches_witness:
  "(\<forall>n. \<not> kv_fails world_r3 n) \<and> action vote_p4 = ''vote''
   \<and> kv world_r3 (room_key ''r3'') = Some \<lparr>val = room_r3, ex = Some 86400\<rparr>
   \<and> (\<exists>room. fst (POST True ''r3'' (Some vote_p4) world_r3)
                 = Inr \<lparr>status = 200, json = RoomJson room\<rparr>
         \<and> map_option val (kv (snd (POST True ''r3'' (Some vote_p4) world_r3)) (room_key ''r3''))
             = Some room
         \<and> players room ! 0 = player_p2
         \<and> (\<exists>n. players room ! 1
                  = player_p4\<lparr>vote := Some ''5'', hasVoted := True,
                              lastSeen := clock world_r3 n\<rparr>))"
proof -
  let ?e = "\<lparr>val = room_r3, ex = Some 86400\<rparr>"
  let ?act = "filter (\<lambda>p. clock world_r3 (tick world_r3) - lastSeen p < 300000)
               (players (val ?e))"
  have h1: "\<forall>n. \<not> kv_fails world_r3 n" and h2: "action vote_p4 = ''vote''"
    and h3: "kv world_r3 (room_key ''r3'') = Some ?e"
    by (simp_all add: world_r3_def vote_p4_def)
  have act: "?act = [player_p2, player_p4]"
    by (simp add: example_defs)
  have act2: "filter (\<lambda>p. clock world_r3 (tick world_r3) - lastSeen p < 300000)
                (players room_r3) = [player_p2, player_p4]"
    by (simp add: example_defs)
  have ids: "id' player_p2 \<noteq> playerId vote_p4" "id' player_p4 = playerId vote_p4"
    "vote_body vote_p4 = ''5''"
    by (simp_all add: example_defs vote_p4_def)
  have run: "POST True ''r3'' (Some vote_p4) world_r3
               = (fst (POST True ''r3'' (Some vote_p4) world_r3),
                  snd (POST True ''r3'' (Some vote_p4) world_r3))"
    by simp
  from vote_marks_active_matches [OF h1 h2 run, THEN conjunct2, rule_format, OF h3]
  obtain room where a: "fst (POST True ''r3'' (Some vote_p4) world_r3)
                 = Inr \<lparr>status = 200, json = RoomJson room\<rparr>"
    and b: "map_option val (kv (snd (POST True ''r3'' (Some vote_p4) world_r3)) (room_key ''r3''))
             = Some room"
    and c: "\<forall>i<length ?act.
              if id' (?act ! i) = playerId vote_p4
              then \<exists>n. tick world_r3 \<le> n
                     \<and> n < tick (snd (POST True ''r3'' (Some vote_p4) world_r3))
                     \<and> players room ! i
                       = (?act ! i)\<lparr>vote := Some (vote_body vote_p4),
                            hasVoted := True, lastSeen := clock world_r3 n\<rparr>
              else players room ! i = ?act ! i"
    by (elim exE conjE)
  have c0: "players room ! 0 = player_p2"
    using c [rule_format, of 0] ids by (simp add: act2)
  have "\<exists>n. tick world_r3 \<le> n
                     \<and> n < tick (snd (POST True ''r3'' (Some vote_p4) world_r3))
                     \<and> players room ! 1
                       = player_p4\<lparr>vote := Some ''5'',
                            hasVoted := True, lastSeen := clock world_r3 n\<rparr>"
    using c [rule_format, of 1] ids by (simp add: act2)
  then have c1: "\<exists>n. players room ! 1
                  = player_p4\<lparr>vote := Some ''5'', hasVoted := True,
                              lastSeen := clock world_r3 n\<rparr>"
    by (elim exE conjE) (rule exI)
  from a b c0 c1 have "\<exists>room. fst (POST True ''r3'' (Some vote_p4) world_r3)
                 = Inr \<lparr>status = 200, json = RoomJson room\<rparr>
         \<and> map_option val (kv (snd (POST True ''r3'' (Some vote_p4) world_r3)) (room_key ''r3''))
             = Some room
         \<and> players room ! 0 = player_p2
         \<and> (\<exists>n. players room ! 1
                  = player_p4\<lparr>vote := Some ''5'', hasVoted := True,
                              lastSeen := clock world_r3 n\<rparr>)"
    by (intro exI [of _ room] conjI)
  with h1 h2 h3 show ?thesis by (intro conjI)
qed

subsection \<open>C2\<close>

text \<open>
  C2. A request to join, served from \<^verbatim>\<open>lib/redis.ts\<close> while the key-value service answers,
  is answered with the room that is stored when the request returns, and that room holds
  the fresh participant: the identifier and name of the request, no vote,
  \<open>hasVoted = False\<close>, and as \<open>lastSeen\<close> a reading of the clock taken during the request.
  The route reads the clock first, so the fetch of \<open>addPlayer\<close> reads it second. When no
  record exists, the room is created and holds exactly that one participant. When the
  record exists and the fetched room (the participants that are not stale at the fetch)
  has a participant with the identifier, the first such entry is replaced by the fresh
  participant and all other entries stay; otherwise the fresh participant is appended to
  the fetched list. In both cases, when the identifiers of the stored room are distinct,
  the fresh participant is the only one with its identifier in the resulting room:
  whatever the stored entry of that identifier held is discarded.
\<close>

theorem join_creates_replaces_or_appends:
  fixes w :: world and b :: body
  defines "act \<equiv> \<lambda>e. filter (\<lambda>p. clock w (Suc (tick w)) - lastSeen p < 300000)
                         (players (val e))"
    and "fresh \<equiv> \<lambda>n. \<lparr>id' = playerId b, name = playerName b, vote = None,
                        hasVoted = False, lastSeen = clock w n\<rparr>"
  assumes up: "\<forall>n. \<not> kv_fails w n"
    and act_join: "action b = ''join''"
    and run: "POST True rid (Some b) w = (r, w')"
  shows "\<exists>room n. r = Inr \<lparr>status = 200, json = RoomJson room\<rparr>
      \<and> map_option val (kv w' (room_key rid)) = Some room
      \<and> tick w \<le> n \<and> n < tick w'
      \<and> fresh n \<in> set (players room)
      \<and> (kv w (room_key rid) = None \<longrightarrow>
            players room = [fresh n] \<and> roomId room = rid \<and> \<not> revealed room)
      \<and> (\<forall>e. kv w (room_key rid) = Some e \<longrightarrow>
            (if playerId b \<in> id' ` set (act e)
             then \<exists>i<length (act e). id' (act e ! i) = playerId b
                    \<and> (\<forall>j<i. id' (act e ! j) \<noteq> playerId b)
                    \<and> players room = (act e)[i := fresh n]
             else players room = act e @ [fresh n])
            \<and> (distinct (map id' (players (val e))) \<longrightarrow>
                  (\<forall>p\<in>set (players room). id' p = playerId b \<longrightarrow> p = fresh n)))"
proof -
  let ?w = "w\<lparr>tick := Suc (tick w)\<rparr>"
  let ?player = "\<lparr>id' = playerId b, name = playerName b, vote = None, hasVoted = False,
                  lastSeen = clock w (tick w)\<rparr>"
  have up': "\<forall>n. \<not> kv_fails ?w n" using up by simp
  note post = POST_join [OF act_join, of True rid w, simplified]
  show ?thesis
  proof (cases "kv w (room_key rid)")
    case None
    then have "kv ?w (room_key rid) = None" by simp
    moreover from up' have "\<not> kv_fails ?w (kv_calls ?w)" by blast
    ultimately have g: "getRoom rid ?w = (Inr None, ?w\<lparr>kv_calls := Suc (kv_calls ?w)\<rparr>)"
      by (rule getRoom_absent)
    have "\<forall>n. \<not> kv_fails (?w\<lparr>kv_calls := Suc (kv_calls ?w)\<rparr>) n" using up by simp
    note a = addPlayer_created [OF g this, of ?player]
    let ?n = "Suc (Suc (Suc (tick w)))"
    let ?room = "\<lparr>players = [fresh ?n], revealed = False, roomId = rid,
                  createdAt = clock w (Suc (tick w)), lastActivity = clock w (Suc ?n)\<rparr>"
    from run post a have "r = Inr \<lparr>status = 200, json = RoomJson ?room\<rparr>"
      and "map_option val (kv w' (room_key rid)) = Some ?room"
      and "tick w' = Suc (Suc ?n)"
      by (auto simp: Let_def fresh_def)
    with None show ?thesis
      by (intro exI [of _ ?room] exI [of _ ?n]) simp
  next
    case (Some e)
    then have some: "kv ?w (room_key rid) = Some e" by simp
    obtain room0 w0 where g: "getRoom rid ?w = (Inr (Some room0), w0)"
      and ps0: "players room0 = act e"
      and same: "kv_fails w0 = kv_fails w" "clock w0 = clock w"
      and tk: "Suc (tick w) < tick w0"
      by (rule getRoom_ok [OF some up']) (erule that; simp add: act_def)
    from up same have "\<not> kv_fails w0 (kv_calls w0)" by simp
    note a = addPlayer_after [OF g this, of ?player]
    let ?n = "tick w0"
    let ?i = "findIndex (\<lambda>p. id' p = playerId b) (act e)"
    let ?ps = "if ?i \<ge> 0 then (act e)[nat ?i := fresh ?n] else act e @ [fresh ?n]"
    let ?room = "room0\<lparr>players := ?ps, lastActivity := clock w (Suc (tick w0))\<rparr>"
    from run post a have r: "r = Inr \<lparr>status = 200, json = RoomJson ?room\<rparr>"
      and kv': "map_option val (kv w' (room_key rid)) = Some ?room"
      and tk': "tick w' = Suc (Suc (tick w0))"
      by (auto simp: Let_def fresh_def ps0 same)
    have ps: "if playerId b \<in> id' ` set (act e)
             then \<exists>i<length (act e). id' (act e ! i) = playerId b
                    \<and> (\<forall>j<i. id' (act e ! j) \<noteq> playerId b)
                    \<and> players ?room = (act e)[i := fresh ?n]
             else players ?room = act e @ [fresh ?n]"
    proof (cases "playerId b \<in> id' ` set (act e)")
      case True
      then have "\<exists>x\<in>set (act e). id' x = playerId b" by auto
      from findIndex_some [OF this]
      obtain k where "k < length (act e)" and "?i = int k" and "id' (act e ! k) = playerId b"
        and "\<forall>j<k. id' (act e ! j) \<noteq> playerId b"
        by blast
      then have "k < length (act e) \<and> id' (act e ! k) = playerId b
                    \<and> (\<forall>j<k. id' (act e ! j) \<noteq> playerId b)
                    \<and> players ?room = (act e)[k := fresh ?n]"
        by simp
      with True show ?thesis by auto
    next
      case False
      then have "\<forall>x\<in>set (act e). id' x \<noteq> playerId b" by (metis imageI)
      then have "?i = - 1" by (rule findIndex_none)
      with False show ?thesis by simp
    qed
    have mem: "fresh ?n \<in> set (players ?room)"
      using fresh_in_after_add [of "fresh ?n" "playerId b" "act e"] by simp
    have only: "\<forall>p\<in>set (players ?room). id' p = playerId b \<longrightarrow> p = fresh ?n"
      if d: "distinct (map id' (players (val e)))"
    proof (intro ballI impI)
      fix p assume "p \<in> set (players ?room)" and pp: "id' p = playerId b"
      then have p: "p \<in> set ?ps" by simp
      from d have "distinct (map id' (act e))" by (simp add: act_def distinct_map_filter)
      moreover have "id' (fresh ?n) = playerId b" by (simp add: fresh_def)
      ultimately show "p = fresh ?n" using p pp by (rule only_fresh_after_add)
    qed
    from r kv' tk tk' ps mem only Some show ?thesis
      by (intro exI [of _ ?room] exI [of _ ?n]) simp
  qed
qed

theorem join_creates_replaces_or_appends_witness:
  "(\<forall>n. \<not> kv_fails world_r3 n) \<and> action join_p9 = ''join''
   \<and> kv world_r3 (room_key ''r9'') = None
   \<and> (\<exists>room n. fst (POST True ''r9'' (Some join_p9) world_r3)
                   = Inr \<lparr>status = 200, json = RoomJson room\<rparr>
         \<and> map_option val (kv (snd (POST True ''r9'' (Some join_p9) world_r3)) (room_key ''r9''))
             = Some room
         \<and> players room = [\<lparr>id' = ''p9'', name = ''Eve'', vote = None, hasVoted = False,
                              lastSeen = clock world_r3 n\<rparr>]
         \<and> roomId room = ''r9'')
   \<and> fst (POST True ''r3'' (Some join_p2) world_r3)
       = Inr \<lparr>status = 200,
               json = RoomJson (room_r3\<lparr>players :=
                        [\<lparr>id' = ''p2'', name = ''Bob'', vote = None, hasVoted = False,
                          lastSeen = 1000000\<rparr>, player_p4],
                        lastActivity := 1000000\<rparr>)\<rparr>"
proof -
  have h1: "\<forall>n. \<not> kv_fails world_r3 n" and h2: "action join_p9 = ''join''"
    and h3: "kv world_r3 (room_key ''r9'') = None"
    by (simp_all add: world_r3_def join_p9_def room_key_def)
  have run9: "POST True ''r9'' (Some join_p9) world_r3
               = (fst (POST True ''r9'' (Some join_p9) world_r3),
                  snd (POST True ''r9'' (Some join_p9) world_r3))"
    by simp
  from join_creates_replaces_or_appends [OF h1 h2 run9]
  obtain room n where a: "fst (POST True ''r9'' (Some join_p9) world_r3)
                   = Inr \<lparr>status = 200, json = RoomJson room\<rparr>"
    and b: "map_option val (kv (snd (POST True ''r9'' (Some join_p9) world_r3)) (room_key ''r9''))
             = Some room"
    and c: "kv world_r3 (room_key ''r9'') = None \<longrightarrow>
            players room = [\<lparr>id' = playerId join_p9, name = playerName join_p9, vote = None,
                              hasVoted = False, lastSeen = clock world_r3 n\<rparr>]
            \<and> roomId room = ''r9'' \<and> \<not> revealed room"
    by (elim exE conjE)
  from c h3 have "players room = [\<lparr>id' = ''p9'', name = ''Eve'', vote = None, hasVoted = False,
                              lastSeen = clock world_r3 n\<rparr>]" and "roomId room = ''r9''"
    by (simp_all add: join_p9_def)
  with a b have first: "\<exists>room n. fst (POST True ''r9'' (Some join_p9) world_r3)
                   = Inr \<lparr>status = 200, json = RoomJson room\<rparr>
         \<and> map_option val (kv (snd (POST True ''r9'' (Some join_p9) world_r3)) (room_key ''r9''))
             = Some room
         \<and> players room = [\<lparr>id' = ''p9'', name = ''Eve'', vote = None, hasVoted = False,
                              lastSeen = clock world_r3 n\<rparr>]
         \<and> roomId room = ''r9''"
    by (intro exI [of _ room] exI [of _ n] conjI)
  have second: "fst (POST True ''r3'' (Some join_p2) world_r3)
       = Inr \<lparr>status = 200,
               json = RoomJson (room_r3\<lparr>players :=
                        [\<lparr>id' = ''p2'', name = ''Bob'', vote = None, hasVoted = False,
                          lastSeen = 1000000\<rparr>, player_p4],
                        lastActivity := 1000000\<rparr>)\<rparr>"
    by (simp add: POST_def join_p2_def redis_defs io_defs example_defs Let_def)
  from h1 h2 h3 first second show ?thesis by (intro conjI)
qed

subsection \<open>C3\<close>

text \<open>
  C3. While the key-value service answers: when no record exists for the room,
  \<open>resetVotes\<close> returns null and writes nothing. When the record exists, the room that
  \<open>resetVotes\<close> returns and stores has its reveal flag false, its participants are those
  that the fetch has kept, and every one of them has no vote, \<open>hasVoted = False\<close> and as
  \<open>lastSeen\<close> a reading of the clock taken during the call.
\<close>

theorem resetVotes_clears_votes:
  assumes up: "\<forall>n. \<not> kv_fails w n"
    and run: "resetVotes rid w = (r, w')"
  shows "(kv w (room_key rid) = None \<longrightarrow> r = Inr None \<and> kv w' = kv w)
       \<and> (\<forall>e. kv w (room_key rid) = Some e \<longrightarrow>
            (\<exists>room. r = Inr (Some room) \<and> \<not> revealed room
               \<and> map id' (players room)
                   = map id' (filter (\<lambda>p. clock w (tick w) - lastSeen p < 300000)
                               (players (val e)))
               \<and> (\<forall>p\<in>set (players room).
                     vote p = None \<and> \<not> hasVoted p
                     \<and> (\<exists>n. tick w \<le> n \<and> n < tick w' \<and> lastSeen p = clock w n))
               \<and> map_option val (kv w' (room_key rid)) = Some room))"
proof (intro conjI allI impI)
  assume none: "kv w (room_key rid) = None"
  from up have "\<not> kv_fails w (kv_calls w)" by simp
  from getRoom_absent [OF none this]
  have "resetVotes rid w = (Inr None, w\<lparr>kv_calls := Suc (kv_calls w)\<rparr>)"
    by (rule resetVotes_none)
  with run show "r = Inr None" and "kv w' = kv w" by auto
next
  fix e
  assume some: "kv w (room_key rid) = Some e"
  let ?act = "filter (\<lambda>p. clock w (tick w) - lastSeen p < 300000) (players (val e))"
  let ?sel = "\<lambda>p::Player. True"
  let ?upd = "\<lambda>now p. p\<lparr>vote := None, hasVoted := False, lastSeen := now\<rparr>"
  from getRoom_ok [OF some up]
  obtain room0 w0 where g: "getRoom rid w = (Inr (Some room0), w0)"
    and ps0: "players room0 = ?act"
    and same: "kv_fails w0 = kv_fails w" "clock w0 = clock w"
    and tk: "tick w < tick w0"
    by blast
  from up same have "\<not> kv_fails w0 (kv_calls w0)" by simp
  note v = resetVotes_after [OF g this]
  let ?t = "tick w0 + length ?act"
  let ?room = "room0\<lparr>players := stamp_from (clock w) (tick w0) ?sel ?upd ?act,
                      revealed := False, lastActivity := clock w ?t\<rparr>"
  from run v have r: "r = Inr (Some ?room)"
    and kv': "map_option val (kv w' (room_key rid)) = Some ?room"
    and tk': "tick w' = Suc ?t"
    by (auto simp: Let_def ps0 same)
  have each: "vote p = None \<and> \<not> hasVoted p
              \<and> (\<exists>n. tick w \<le> n \<and> n < tick w' \<and> lastSeen p = clock w n)"
    if "p \<in> set (players ?room)" for p
  proof -
    from that obtain i where i: "i < length ?act"
      and p: "p = stamp_from (clock w) (tick w0) ?sel ?upd ?act ! i"
      by (auto simp: in_set_conv_nth)
    let ?n = "tick w0 + length (filter ?sel (take i ?act))"
    from p i have p': "p = ?upd (clock w ?n) (?act ! i)"
      by (simp only: nth_stamp_from if_True)
    have "tick w \<le> ?n" using tk by simp
    moreover have "?n < tick w'"
      using length_filter_take_le [of ?sel i ?act] by (simp add: tk')
    ultimately show ?thesis using p' by auto
  qed
  have ids: "map id' (players ?room) = map id' ?act"
    by (simp add: map_stamp_from)
  show "\<exists>room. r = Inr (Some room) \<and> \<not> revealed room
               \<and> map id' (players room) = map id' ?act
               \<and> (\<forall>p\<in>set (players room).
                     vote p = None \<and> \<not> hasVoted p
                     \<and> (\<exists>n. tick w \<le> n \<and> n < tick w' \<and> lastSeen p = clock w n))
               \<and> map_option val (kv w' (room_key rid)) = Some room"
  proof (intro exI [of _ ?room] conjI ballI)
    show "r = Inr (Some ?room)" by (rule r)
    show "\<not> revealed ?room" by simp
    show "map id' (players ?room) = map id' ?act" by (rule ids)
    show "map_option val (kv w' (room_key rid)) = Some ?room" by (rule kv')
  qed (use each in blast)+
qed

theorem resetVotes_clears_votes_witness:
  "(\<forall>n. \<not> kv_fails world_r1 n)
   \<and> kv world_r1 (room_key ''r1'') = Some \<lparr>val = room_r1, ex = Some 86400\<rparr>
   \<and> (\<exists>room. fst (resetVotes ''r1'' world_r1) = Inr (Some room) \<and> \<not> revealed room
         \<and> map id' (players room) = [''p2'']
         \<and> (\<forall>p\<in>set (players room). vote p = None \<and> \<not> hasVoted p)
         \<and> map_option val (kv (snd (resetVotes ''r1'' world_r1)) (room_key ''r1'')) = Some room)"
proof -
  have run: "resetVotes ''r1'' world_r1
               = (fst (resetVotes ''r1'' world_r1), snd (resetVotes ''r1'' world_r1))"
    by simp
  have act: "map id' (filter (\<lambda>p. clock world_r1 (tick world_r1) - lastSeen p < 300000)
               (players (val \<lparr>val = room_r1, ex = Some 86400\<rparr>))) = [''p2'']"
    by (simp add: example_defs)
  from resetVotes_clears_votes [OF world_r1_up run, THEN conjunct2, rule_format, OF world_r1_kv]
  obtain room where a: "fst (resetVotes ''r1'' world_r1) = Inr (Some room)"
    and b: "\<not> revealed room"
    and c: "map id' (players room)
              = map id' (filter (\<lambda>p. clock world_r1 (tick world_r1) - lastSeen p < 300000)
                   (players (val \<lparr>val = room_r1, ex = Some 86400\<rparr>)))"
    and d: "\<forall>p\<in>set (players room).
              vote p = None \<and> \<not> hasVoted p
              \<and> (\<exists>n. tick world_r1 \<le> n \<and> n < tick (snd (resetVotes ''r1'' world_r1))
                     \<and> lastSeen p = clock world_r1 n)"
    and e: "map_option val (kv (snd (resetVotes ''r1'' world_r1)) (room_key ''r1'')) = Some room"
    by (elim exE conjE)
  from d have d': "\<forall>p\<in>set (players room). vote p = None \<and> \<not> hasVoted p" by blast
  from c have c': "map id' (players room) = [''p2'']" by (simp only: act)
  from a b c' d' e
  have "\<exists>room. fst (resetVotes ''r1'' world_r1) = Inr (Some room) \<and> \<not> revealed room
         \<and> map id' (players room) = [''p2'']
         \<and> (\<forall>p\<in>set (players room). vote p = None \<and> \<not> hasVoted p)
         \<and> map_option val (kv (snd (resetVotes ''r1'' world_r1)) (room_key ''r1'')) = Some room"
    by (intro exI [of _ room] conjI)
  with world_r1_up world_r1_kv show ?thesis by (intro conjI)
qed

subsection \<open>C4\<close>

text \<open>
  C4. For every existing room, \<open>getRoom\<close> returns only the participants whose
  \<open>now - lastSeen\<close> is within the threshold of 5 minutes (300000 milliseconds), where
  \<open>now\<close> is the reading of the clock that \<open>getRoom\<close> takes; when that list is shorter than
  the stored one, the returned room (with the pruned list) is what the store holds under
  the key of the room when \<open>getRoom\<close> returns; and a second \<open>getRoom\<close> that reads the same
  time returns the same list of participants.
\<close>

theorem getRoom_prunes_persists_idempotent:
  assumes "kv w (room_key rid) = Some e"
    and "\<forall>n. \<not> kv_fails w n"
    and "getRoom rid w = (r, w')"
  shows "\<exists>room. r = Inr (Some room)
      \<and> players room = filter (\<lambda>p. clock w (tick w) - lastSeen p < 300000) (players (val e))
      \<and> (length (players room) < length (players (val e)) \<longrightarrow>
           kv w' (room_key rid) = Some \<lparr>val = room, ex = Some 86400\<rparr>)
      \<and> (clock w (tick w') = clock w (tick w) \<longrightarrow>
           (\<exists>room2. fst (getRoom rid w') = Inr (Some room2) \<and> players room2 = players room))"
proof -
  let ?act = "filter (\<lambda>p. clock w (tick w) - lastSeen p < 300000) (players (val e))"
  show ?thesis
  proof (cases "length ?act = length (players (val e))")
    case True
    then have same: "?act = players (val e)" by (rule filter_length_eq)
    from assms True have r: "r = Inr (Some (val e))"
      and w': "w' = w\<lparr>tick := Suc (tick w), kv_calls := Suc (kv_calls w)\<rparr>"
      by (simp_all add: getRoom_present Let_def)
    have kv': "kv w' (room_key rid) = Some e" and nf: "\<forall>n. \<not> kv_fails w' n"
      and ck: "clock w' = clock w"
      using assms by (simp_all add: w')
    have "clock w (tick w') = clock w (tick w) \<Longrightarrow>
          fst (getRoom rid w') = Inr (Some (val e))"
      using same by (simp add: getRoom_present [OF kv' nf] ck Let_def)
    with r same show ?thesis by simp
  next
    case False
    let ?room = "(val e)\<lparr>players := ?act, lastActivity := clock w (Suc (tick w))\<rparr>"
    from assms False have r: "r = Inr (Some ?room)"
      and w': "w' = w\<lparr>tick := Suc (Suc (tick w)), kv_calls := Suc (Suc (kv_calls w)),
              kv := (kv w)(room_key rid \<mapsto> \<lparr>val = ?room, ex = Some 86400\<rparr>)\<rparr>"
      by (simp_all add: getRoom_present Let_def)
    have kv': "kv w' (room_key rid) = Some \<lparr>val = ?room, ex = Some 86400\<rparr>"
      and nf: "\<forall>n. \<not> kv_fails w' n" and ck: "clock w' = clock w"
      using assms by (simp_all add: w')
    have "clock w (tick w') = clock w (tick w) \<Longrightarrow>
          fst (getRoom rid w') = Inr (Some ?room)"
      by (simp add: getRoom_present [OF kv' nf] ck Let_def)
    with r kv' show ?thesis by simp
  qed
qed

theorem getRoom_prunes_persists_idempotent_witness:
  "kv world_r1 (room_key ''r1'') = Some \<lparr>val = room_r1, ex = Some 86400\<rparr>
   \<and> (\<forall>n. \<not> kv_fails world_r1 n)
   \<and> (\<exists>room. fst (getRoom ''r1'' world_r1) = Inr (Some room)
        \<and> players room = [player_p2]
        \<and> kv (snd (getRoom ''r1'' world_r1)) (room_key ''r1'')
            = Some \<lparr>val = room, ex = Some 86400\<rparr>
        \<and> (\<exists>room2. fst (getRoom ''r1'' (snd (getRoom ''r1'' world_r1))) = Inr (Some room2)
              \<and> players room2 = players room))"
proof -
  have run: "getRoom ''r1'' world_r1 = (fst (getRoom ''r1'' world_r1), snd (getRoom ''r1'' world_r1))"
    by simp
  have act: "filter (\<lambda>p. clock world_r1 (tick world_r1) - lastSeen p < 300000)
               (players (val \<lparr>val = room_r1, ex = Some 86400\<rparr>)) = [player_p2]"
    by (simp add: world_r1_def room_r1_def player_p1_def player_p2_def)
  have len: "length [player_p2] < length (players (val \<lparr>val = room_r1, ex = Some 86400\<rparr>))"
    by (simp add: room_r1_def)
  have ck: "clock world_r1 (tick (snd (getRoom ''r1'' world_r1))) = clock world_r1 (tick world_r1)"
    by (simp add: world_r1_def)
  from getRoom_prunes_persists_idempotent [OF world_r1_kv world_r1_up run]
  obtain room where "fst (getRoom ''r1'' world_r1) = Inr (Some room)"
    and "players room = [player_p2]"
    and "kv (snd (getRoom ''r1'' world_r1)) (room_key ''r1'') = Some \<lparr>val = room, ex = Some 86400\<rparr>"
    and "\<exists>room2. fst (getRoom ''r1'' (snd (getRoom ''r1'' world_r1))) = Inr (Some room2)
            \<and> players room2 = players room"
    using act len ck by auto
  with world_r1_kv world_r1_up show ?thesis by blast
qed

subsection \<open>C5\<close>

text \<open>
  C5. \<open>toggleReveal\<close> flips the reveal flag of an existing room, in the room it returns
  and in the stored one, and a second \<open>toggleReveal\<close> right after the first brings the
  flag back to its original value, whatever the clock reads in between.
\<close>

theorem toggleReveal_involution:
  assumes some: "kv w (room_key rid) = Some e"
    and up: "\<forall>n. \<not> kv_fails w n"
    and first: "toggleReveal rid w = (r1, w1)"
    and second: "toggleReveal rid w1 = (r2, w2)"
  shows "\<exists>room1 room2. r1 = Inr (Some room1) \<and> revealed room1 = (\<not> revealed (val e))
      \<and> map_option val (kv w1 (room_key rid)) = Some room1
      \<and> r2 = Inr (Some room2) \<and> revealed room2 = revealed (val e)
      \<and> map_option val (kv w2 (room_key rid)) = Some room2"
proof -
  from toggleReveal_ok [OF some up] first
  obtain room1 where r1: "r1 = Inr (Some room1)"
    and v1: "revealed room1 = (\<not> revealed (val e))"
    and kv1: "kv w1 (room_key rid) = Some \<lparr>val = room1, ex = Some 86400\<rparr>"
    and up1: "\<forall>n. \<not> kv_fails w1 n"
    by (metis Pair_inject)
  from toggleReveal_ok [OF kv1 up1] second
  obtain room2 where r2: "r2 = Inr (Some room2)"
    and v2: "revealed room2 = (\<not> revealed (val \<lparr>val = room1, ex = Some 86400\<rparr>))"
    and kv2: "kv w2 (room_key rid) = Some \<lparr>val = room2, ex = Some 86400\<rparr>"
    by (metis Pair_inject)
  from r1 v1 kv1 r2 v2 kv2 show ?thesis by simp
qed

theorem toggleReveal_involution_witness:
  "kv world_r2 (room_key ''r2'') = Some \<lparr>val = room_r2, ex = Some 86400\<rparr>
   \<and> (\<forall>n. \<not> kv_fails world_r2 n)
   \<and> revealed room_r2
   \<and> (\<exists>room1 room2. fst (toggleReveal ''r2'' world_r2) = Inr (Some room1)
         \<and> \<not> revealed room1
         \<and> fst (toggleReveal ''r2'' (snd (toggleReveal ''r2'' world_r2))) = Inr (Some room2)
         \<and> revealed room2)"
proof -
  have h1: "kv world_r2 (room_key ''r2'') = Some \<lparr>val = room_r2, ex = Some 86400\<rparr>"
    and h2: "\<forall>n. \<not> kv_fails world_r2 n"
    by (simp_all add: world_r2_def)
  have rv: "revealed room_r2" by (simp add: room_r2_def)
  have first: "toggleReveal ''r2'' world_r2
                 = (fst (toggleReveal ''r2'' world_r2), snd (toggleReveal ''r2'' world_r2))"
    and second: "toggleReveal ''r2'' (snd (toggleReveal ''r2'' world_r2))
                 = (fst (toggleReveal ''r2'' (snd (toggleReveal ''r2'' world_r2))),
                    snd (toggleReveal ''r2'' (snd (toggleReveal ''r2'' world_r2))))"
    by simp_all
  from toggleReveal_involution [OF h1 h2 first second]
  obtain room1 room2 where "fst (toggleReveal ''r2'' world_r2) = Inr (Some room1)"
    and "revealed room1 = (\<not> revealed (val \<lparr>val = room_r2, ex = Some 86400\<rparr>))"
    and "fst (toggleReveal ''r2'' (snd (toggleReveal ''r2'' world_r2))) = Inr (Some room2)"
    and "revealed room2 = revealed (val \<lparr>val = room_r2, ex = Some 86400\<rparr>)"
    by (elim exE conjE)
  with rv have "\<exists>room1 room2. fst (toggleReveal ''r2'' world_r2) = Inr (Some room1)
         \<and> \<not> revealed room1
         \<and> fst (toggleReveal ''r2'' (snd (toggleReveal ''r2'' world_r2))) = Inr (Some room2)
         \<and> revealed room2"
    by (intro exI [of _ room1] exI [of _ room2]) simp
  with h1 h2 rv show ?thesis by (intro conjI)
qed

subsection \<open>C6\<close>

text \<open>
  C6. Whatever requests are served, one after the other, by either backend, starting
  from a store in which a room has just been created, the identifiers of the
  participants are pairwise distinct in every stored room; and every single request,
  whether its handler returns or throws, takes a world with that property to a world
  with that property.
\<close>

theorem participant_ids_stay_unique:
  assumes "kv w0 = Map.empty" and "rooms w0 = Map.empty"
  shows "uniq_ids (serve u qs
           (if u then snd (createRoom rid w0) else snd (createRoom_mock rid w0)))
       \<and> (\<forall>w q. uniq_ids w \<longrightarrow> uniq_ids (handle u q w))"
  using uniq_ids_created [OF assms] by (simp add: uniq_ids_serve uniq_ids_handle)

theorem participant_ids_stay_unique_witness:
  "kv world_empty = Map.empty \<and> rooms world_empty = Map.empty
   \<and> uniq_ids (serve True
        [Submit ''r1'' (Some join_p2), Submit ''r1'' (Some join_p2),
         Submit ''r1'' (Some join_p9), Submit ''r1'' (Some join_p2), Fetch ''r1'']
        (snd (createRoom ''r1'' world_empty)))
   \<and> map_option (map id' \<circ> players \<circ> val)
        (kv (serve True
               [Submit ''r1'' (Some join_p2), Submit ''r1'' (Some join_p2),
                Submit ''r1'' (Some join_p9), Submit ''r1'' (Some join_p2), Fetch ''r1'']
               (snd (createRoom ''r1'' world_empty)))
            (room_key ''r1''))
       = Some [''p2'', ''p9'']"
proof -
  have h1: "kv world_empty = Map.empty" and h2: "rooms world_empty = Map.empty"
    by (simp_all add: world_empty_def)
  from participant_ids_stay_unique [OF h1 h2, of True
      "[Submit ''r1'' (Some join_p2), Submit ''r1'' (Some join_p2),
        Submit ''r1'' (Some join_p9), Submit ''r1'' (Some join_p2), Fetch ''r1'']" "''r1''",
      THEN conjunct1]
  have a: "uniq_ids (serve True
        [Submit ''r1'' (Some join_p2), Submit ''r1'' (Some join_p2),
         Submit ''r1'' (Some join_p9), Submit ''r1'' (Some join_p2), Fetch ''r1'']
        (snd (createRoom ''r1'' world_empty)))"
    by (simp only: if_True)
  have b: "map_option (map id' \<circ> players \<circ> val)
        (kv (serve True
               [Submit ''r1'' (Some join_p2), Submit ''r1'' (Some join_p2),
                Submit ''r1'' (Some join_p9), Submit ''r1'' (Some join_p2), Fetch ''r1'']
               (snd (createRoom ''r1'' world_empty)))
            (room_key ''r1''))
       = Some [''p2'', ''p9'']"
    by (simp add: GET_def POST_def room_or_404_def join_p2_def join_p9_def world_empty_def
        no_objs_def redis_defs io_defs Let_def)
  from h1 h2 a b show ?thesis by (intro conjI)
qed

subsection \<open>C7\<close>

text \<open>
  C7, as the claim states it, fails: in a stored room with a stale participant,
  \<open>getRoom\<close> of either module returns a list that differs from the stored one, and
  writes the pruned room.
\<close>

theorem getRoom_prunes_counterexample:
  "map_option (players \<circ> val) (kv world_r1 (room_key ''r1'')) = Some [player_p1, player_p2]
   \<and> fst (getRoom ''r1'' world_r1)
       = Inr (Some (room_r1\<lparr>players := [player_p2], lastActivity := 1000000\<rparr>))
   \<and> kv (snd (getRoom ''r1'' world_r1)) (room_key ''r1'')
       = Some \<lparr>val = room_r1\<lparr>players := [player_p2], lastActivity := 1000000\<rparr>,
                ex = Some 86400\<rparr>
   \<and> stored world_r1 (room_key ''r1'') = Some room_r1
   \<and> fst (getRoom_mock ''r1'' world_r1) = Inr (Some 1)
   \<and> room_of (snd (getRoom_mock ''r1'' world_r1)) 1
       = room_r1\<lparr>players := [player_p2], lastActivity := 1000000\<rparr>
   \<and> stored (snd (getRoom_mock ''r1'' world_r1)) (room_key ''r1'')
       = Some (room_r1\<lparr>players := [player_p2], lastActivity := 1000000\<rparr>)"
  by (simp add: getRoom_present [OF world_r1_kv world_r1_up]
        getRoom_mock_present [OF world_r1_rooms] world_r1_stored)
     (simp add: world_r1_def room_r1_def player_p1_def player_p2_def Let_def
        stored_def room_of_def obj_of_def no_objs_def)

text \<open>
  C7, amended. The raw fetch of the store (\<open>kv_get\<close>, \<open>rooms_get\<close>) returns the record
  as it is stored and writes nothing. \<open>getRoom\<close>, of either module, returns the stored
  room as it is and writes nothing when no stored participant is stale, that is when
  every stored participant has \<open>now - lastSeen < 300000\<close>. For the in-memory module,
  what is returned is the stored object, which reads as the stored room, and the map,
  the objects and the arrays stay as they are.
\<close>

theorem getRoom_reads_only_when_all_active:
  assumes "kv w (room_key rid) = Some e"
    and "stored w (room_key rid) = Some g"
    and "\<forall>n. \<not> kv_fails w n"
    and "\<forall>p\<in>set (players (val e)). clock w (tick w) - lastSeen p < 300000"
    and "\<forall>p\<in>set (players g). clock w (tick w) - lastSeen p < 300000"
  shows "fst (getRoom rid w) = Inr (Some (val e)) \<and> kv (snd (getRoom rid w)) = kv w
       \<and> (\<exists>ref. rooms w (room_key rid) = Some ref
             \<and> fst (getRoom_mock rid w) = Inr (Some ref)
             \<and> room_of (snd (getRoom_mock rid w)) ref = g)
       \<and> rooms (snd (getRoom_mock rid w)) = rooms w
       \<and> objs (snd (getRoom_mock rid w)) = objs w
       \<and> arrs (snd (getRoom_mock rid w)) = arrs w
       \<and> fst (kv_get (room_key rid) w) = Inr (Some (val e))
       \<and> kv (snd (kv_get (room_key rid) w)) = kv w
       \<and> (\<exists>ref. rooms w (room_key rid) = Some ref
             \<and> fst (rooms_get (room_key rid) w) = Inr (Some ref)
             \<and> room_of (snd (rooms_get (room_key rid) w)) ref = g)
       \<and> rooms (snd (rooms_get (room_key rid) w)) = rooms w
       \<and> objs (snd (rooms_get (room_key rid) w)) = objs w
       \<and> arrs (snd (rooms_get (room_key rid) w)) = arrs w"
proof -
  from assms(2) obtain ref where ref: "rooms w (room_key rid) = Some ref"
    and g: "g = room_of w ref"
    by (auto simp: stored_def)
  have a: "filter (\<lambda>p. clock w (tick w) - lastSeen p < 300000) (players (val e))
             = players (val e)"
    using assms(4) by simp
  have b: "filter (\<lambda>p. clock w (tick w) - lastSeen p < 300000) (arrs w (o_players (objs w ref)))
             = arrs w (o_players (objs w ref))"
    using assms(5) by (simp add: g room_of_def)
  show ?thesis
    using assms(1,3) ref
    by (simp add: getRoom_present [OF assms(1) assms(3)] getRoom_mock_present [OF ref]
        a b kv_get_def rooms_get_def g room_of_def)
qed

theorem getRoom_reads_only_when_all_active_witness:
  "kv world_r3 (room_key ''r3'') = Some \<lparr>val = room_r3, ex = Some 86400\<rparr>
   \<and> stored world_r3 (room_key ''r3'') = Some room_r3
   \<and> (\<forall>n. \<not> kv_fails world_r3 n)
   \<and> players room_r3 = [player_p2, player_p4]
   \<and> clock world_r3 (tick world_r3) - lastSeen player_p2 < 300000
   \<and> clock world_r3 (tick world_r3) - lastSeen player_p4 < 300000
   \<and> fst (getRoom ''r3'' world_r3) = Inr (Some room_r3)
   \<and> kv (snd (getRoom ''r3'' world_r3)) = kv world_r3
   \<and> (\<exists>ref. rooms world_r3 (room_key ''r3'') = Some ref
         \<and> fst (getRoom_mock ''r3'' world_r3) = Inr (Some ref)
         \<and> room_of (snd (getRoom_mock ''r3'' world_r3)) ref = room_r3)
   \<and> rooms (snd (getRoom_mock ''r3'' world_r3)) = rooms world_r3
   \<and> objs (snd (getRoom_mock ''r3'' world_r3)) = objs world_r3
   \<and> arrs (snd (getRoom_mock ''r3'' world_r3)) = arrs world_r3"
proof -
  have h1: "kv world_r3 (room_key ''r3'') = Some \<lparr>val = room_r3, ex = Some 86400\<rparr>"
    and h3: "\<forall>n. \<not> kv_fails world_r3 n"
    by (simp_all add: world_r3_def)
  note h2 = world_r3_stored
  have h5: "\<forall>p\<in>set (players room_r3). clock world_r3 (tick world_r3) - lastSeen p < 300000"
    by (simp add: world_r3_def room_r3_def player_p2_def player_p4_def)
  then have h4: "\<forall>p\<in>set (players (val \<lparr>val = room_r3, ex = Some 86400\<rparr>)).
                   clock world_r3 (tick world_r3) - lastSeen p < 300000"
    by simp
  have ps: "players room_r3 = [player_p2, player_p4]"
    by (simp add: room_r3_def)
  from getRoom_reads_only_when_all_active [OF h1 h2 h3 h4 h5] h1 h2 h3 h5 ps
  show ?thesis by simp
qed

subsection \<open>C8\<close>

text \<open>
  C8, as the claim states it, fails, in three ways. A record written by
  \<^verbatim>\<open>lib/redis.ts\<close> expires after 86400 seconds, an entry of the map of
  \<^verbatim>\<open>lib/redis-mock.ts\<close> never does. \<open>addPlayer\<close> of the two modules returns different
  rooms for a participant whose \<open>lastSeen\<close> is not what the clock reads: the first
  stamps the participant with the clock, the second stores it as it is given. And the
  map of \<^verbatim>\<open>lib/redis-mock.ts\<close> holds the object of its caller where the key-value
  service holds a copy: from stores that hold the same rooms, \<open>updateRoom\<close> under the
  key \<open>room:b\<close> with the object that the map holds under \<open>room:r3\<close> changes the
  \<open>lastActivity\<close> of the room stored under \<open>room:r3\<close> in the map, not in the key-value
  service; and a \<open>toggleReveal\<close> of the room \<open>r3\<close> that follows reveals the room stored
  under \<open>room:b\<close> in the map, not in the key-value service.
\<close>

theorem backends_differ_counterexample:
  "expiry_kv (snd (createRoom ''r1'' world_r3)) (room_key ''r1'') = Some (Some 86400)
   \<and> expiry_rooms (snd (createRoom_mock ''r1'' world_r3)) (room_key ''r1'') = Some None
   \<and> fst (addPlayer ''r3'' player_p2 world_r3)
       = Inr (room_r3\<lparr>players := [player_p2\<lparr>lastSeen := 1000000\<rparr>, player_p4],
                      lastActivity := 1000000\<rparr>)
   \<and> fst (addPlayer_mock ''r3'' player_p2 world_r3) = Inr 1
   \<and> room_of (snd (addPlayer_mock ''r3'' player_p2 world_r3)) 1
       = room_r3\<lparr>players := [player_p2, player_p4], lastActivity := 1000000\<rparr>
   \<and> lastSeen player_p2 = 900000
   \<and> (\<forall>k. map_option val (kv world_r3 k) = stored world_r3 k)
   \<and> heap_ok world_r3
   \<and> room_of world_r3 1 = room_r3
   \<and> map_option (lastActivity \<circ> val)
        (kv (snd (updateRoom ''b'' room_r3 world_r3)) (room_key ''r3'')) = Some 900000
   \<and> map_option lastActivity
        (stored (snd (updateRoom_mock ''b'' 1 world_r3)) (room_key ''r3'')) = Some 1000000
   \<and> map_option (revealed \<circ> val)
        (kv (snd (toggleReveal ''r3'' (snd (updateRoom ''b'' room_r3 world_r3))))
           (room_key ''b'')) = Some False
   \<and> map_option revealed
        (stored (snd (toggleReveal_mock ''r3'' (snd (updateRoom_mock ''b'' 1 world_r3))))
           (room_key ''b'')) = Some True"
proof -
  have nf: "\<not> kv_fails world_r3 (kv_calls world_r3)" by (simp add: world_r3_def)
  have e1: "expiry_kv (snd (createRoom ''r1'' world_r3)) (room_key ''r1'') = Some (Some 86400)"
    by (simp add: expiry_kv_def createRoom_ok [OF nf] Let_def)
  have e2: "expiry_rooms (snd (createRoom_mock ''r1'' world_r3)) (room_key ''r1'') = Some None"
    by (simp add: expiry_rooms_def createRoom_mock_apply)
  have g: "getRoom ''r3'' world_r3
             = (Inr (Some room_r3), world_r3\<lparr>tick := Suc (tick world_r3),
                                              kv_calls := Suc (kv_calls world_r3)\<rparr>)"
    by (simp add: getRoom_present [OF world_r3_kv world_r3_up] Let_def)
       (simp add: example_defs)
  have gm: "getRoom_mock ''r3'' world_r3
             = (Inr (Some 1), world_r3\<lparr>tick := Suc (tick world_r3)\<rparr>)"
    by (simp add: getRoom_mock_present [OF world_r3_rooms])
       (simp add: example_defs)
  have a1: "fst (addPlayer ''r3'' player_p2 world_r3)
       = Inr (room_r3\<lparr>players := [player_p2\<lparr>lastSeen := 1000000\<rparr>, player_p4],
                      lastActivity := 1000000\<rparr>)"
    by (simp add: redis_defs io_defs example_defs Let_def)
  have a2: "fst (addPlayer_mock ''r3'' player_p2 world_r3) = Inr 1"
    by (simp add: addPlayer_mock_after [OF gm] Let_def)
  have a3: "room_of (snd (addPlayer_mock ''r3'' player_p2 world_r3)) 1
       = room_r3\<lparr>players := [player_p2, player_p4], lastActivity := 1000000\<rparr>"
    by (simp add: addPlayer_mock_after [OF gm] Let_def)
       (simp add: example_defs findIndex_def room_of_def)
  have a4: "lastSeen player_p2 = 900000" by (simp add: player_p2_def)
  have s1: "\<forall>k. map_option val (kv world_r3 k) = stored world_r3 k"
    by (simp add: stored_def room_of_def example_defs)
  have s2: "heap_ok world_r3"
    by (simp add: heap_ok_def example_defs)
  have s3: "room_of world_r3 1 = room_r3"
    by (simp add: room_of_def example_defs)
  have u1: "updateRoom ''b'' room_r3 world_r3
      = (Inr (room_r3\<lparr>lastActivity := 1000000\<rparr>),
         world_r3\<lparr>tick := 1, kv_calls := 1,
            kv := (kv world_r3)(room_key ''b'' \<mapsto>
                    \<lparr>val = room_r3\<lparr>lastActivity := 1000000\<rparr>, ex = Some 86400\<rparr>)\<rparr>)"
    by (simp add: updateRoom_ok [OF nf]) (simp add: world_r3_def)
  have u2: "updateRoom_mock ''b'' 1 world_r3
      = (Inr (),
         world_r3\<lparr>tick := 1,
            objs := (objs world_r3)(1 := (objs world_r3 1)\<lparr>o_lastActivity := 1000000\<rparr>),
            rooms := (rooms world_r3)(room_key ''b'' \<mapsto> 1)\<rparr>)"
    by (simp add: updateRoom_mock_apply) (simp add: world_r3_def)
  have b1: "map_option (lastActivity \<circ> val)
        (kv (snd (updateRoom ''b'' room_r3 world_r3)) (room_key ''r3'')) = Some 900000"
    by (simp only: u1) (simp add: example_defs room_key_def)
  have b2: "map_option lastActivity
        (stored (snd (updateRoom_mock ''b'' 1 world_r3)) (room_key ''r3'')) = Some 1000000"
    by (simp only: u2) (simp add: stored_def room_of_def example_defs room_key_def)
  let ?w1 = "snd (updateRoom ''b'' room_r3 world_r3)"
  let ?w2 = "snd (updateRoom_mock ''b'' 1 world_r3)"
  have k1: "kv ?w1 (room_key ''r3'') = Some \<lparr>val = room_r3, ex = Some 86400\<rparr>"
    by (simp only: u1) (simp add: world_r3_def room_key_def)
  have up1: "\<forall>n. \<not> kv_fails ?w1 n"
    by (simp only: u1) (simp add: world_r3_def)
  have g1: "getRoom ''r3'' ?w1 = (Inr (Some room_r3), ?w1\<lparr>tick := 2, kv_calls := 2\<rparr>)"
    by (simp only: getRoom_present [OF k1 up1] Let_def)
       (simp only: u1, simp add: example_defs)
  have nf1: "\<not> kv_fails (?w1\<lparr>tick := 2, kv_calls := 2\<rparr>) (kv_calls (?w1\<lparr>tick := 2, kv_calls := 2\<rparr>))"
    using up1 by simp
  have c1: "map_option (revealed \<circ> val)
        (kv (snd (toggleReveal ''r3'' ?w1)) (room_key ''b'')) = Some False"
    by (simp only: toggleReveal_after [OF g1 nf1] Let_def)
       (simp only: u1, simp add: example_defs room_key_def)
  have r2: "rooms ?w2 (room_key ''r3'') = Some 1"
    by (simp only: u2) (simp add: world_r3_def room_key_def)
  have g2: "getRoom_mock ''r3'' ?w2 = (Inr (Some 1), ?w2\<lparr>tick := 2\<rparr>)"
    by (simp only: getRoom_mock_present [OF r2])
       (simp only: u2, simp add: example_defs)
  have c2: "map_option revealed
        (stored (snd (toggleReveal_mock ''r3'' ?w2)) (room_key ''b'')) = Some True"
    by (simp only: toggleReveal_mock_after [OF g2])
       (simp only: u2, simp add: stored_def room_of_def example_defs room_key_def)
  from e1 e2 a1 a2 a3 a4 s1 s2 s3 b1 b2 c1 c2 show ?thesis by (intro conjI)
qed

text \<open>
  C8, amended. Started in a world whose two stores hold the same rooms and whose map
  holds no object under two keys, and while the key-value service answers, \<open>getRoom\<close>,
  \<open>createRoom\<close>, \<open>updatePlayerVote\<close>, \<open>toggleReveal\<close>, \<open>resetVotes\<close> and
  \<open>updatePlayerHeartbeat\<close> of the two modules return the same value and leave the same
  rooms stored, for every input, and so does \<open>updateRoom\<close> for every key and every
  state object that the map holds under no other key. The value that a function of
  \<^verbatim>\<open>lib/redis-mock.ts\<close> returns is read when it returns. Every record that
  \<^verbatim>\<open>lib/redis.ts\<close> writes carries an expiry of 86400 seconds (the map of the other
  module has no expiry), and afterwards the map again holds no object under two keys.
  Nothing is said of \<open>addPlayer\<close>.
\<close>

theorem backends_agree_on_rooms:
  assumes rel: "\<forall>k. map_option val (kv w k) = stored w k" and up: "\<forall>n. \<not> kv_fails w n"
    and ok: "heap_ok w"
  shows "agree_from (\<lambda>w'. map_option (room_of w')) w (getRoom rid w) (getRoom_mock rid w)
       \<and> agree_from room_of w (createRoom rid w) (createRoom_mock rid w)
       \<and> ((\<forall>k. k \<noteq> room_key rid \<longrightarrow> rooms w k \<noteq> Some s) \<longrightarrow>
            s < next_ref w \<longrightarrow> o_players (objs w s) < next_ref w \<longrightarrow>
            agree_from (\<lambda>w' _. room_of w' s) w
              (updateRoom rid (room_of w s) w) (updateRoom_mock rid s w))
       \<and> agree_from (\<lambda>w'. map_option (room_of w')) w
           (updatePlayerVote rid pid v w) (updatePlayerVote_mock rid pid v w)
       \<and> agree_from (\<lambda>w'. map_option (room_of w')) w
           (toggleReveal rid w) (toggleReveal_mock rid w)
       \<and> agree_from (\<lambda>w'. map_option (room_of w')) w (resetVotes rid w) (resetVotes_mock rid w)
       \<and> agree_from (\<lambda>_ u. u) w
           (updatePlayerHeartbeat rid pid w) (updatePlayerHeartbeat_mock rid pid w)"
  by (intro conjI impI agree_getRoom agree_createRoom agree_updateRoom agree_updatePlayerVote
      agree_toggleReveal agree_resetVotes agree_updatePlayerHeartbeat rel up ok)

theorem backends_agree_on_rooms_witness:
  "(\<forall>k. map_option val (kv world_r1 k) = stored world_r1 k)
   \<and> (\<forall>n. \<not> kv_fails world_r1 n)
   \<and> heap_ok world_r1
   \<and> dom (rooms world_r1) = {room_key ''r1''}
   \<and> 1 < next_ref world_r1
   \<and> o_players (objs world_r1 1) < next_ref world_r1
   \<and> agree_from (\<lambda>w'. map_option (room_of w')) world_r1
        (getRoom ''r1'' world_r1) (getRoom_mock ''r1'' world_r1)
   \<and> agree_from (\<lambda>w' _. room_of w' 1) world_r1
        (updateRoom ''r1'' (room_of world_r1 1) world_r1) (updateRoom_mock ''r1'' 1 world_r1)
   \<and> agree_from (\<lambda>w'. map_option (room_of w')) world_r1
        (updatePlayerVote ''r1'' ''p2'' ''5'' world_r1)
        (updatePlayerVote_mock ''r1'' ''p2'' ''5'' world_r1)
   \<and> (\<exists>a b. fst (updatePlayerVote ''r1'' ''p2'' ''5'' world_r1) = Inr a
         \<and> fst (updatePlayerVote_mock ''r1'' ''p2'' ''5'' world_r1) = Inr b
         \<and> a = map_option
                 (room_of (snd (updatePlayerVote_mock ''r1'' ''p2'' ''5'' world_r1))) b)
   \<and> agree_from (\<lambda>w'. map_option (room_of w')) world_r1
        (resetVotes ''r1'' world_r1) (resetVotes_mock ''r1'' world_r1)"
proof -
  have h1: "\<forall>k. map_option val (kv world_r1 k) = stored world_r1 k"
    by (simp add: stored_def room_of_def example_defs)
  have h3: "heap_ok world_r1"
    by (simp add: heap_ok_def example_defs)
  have d: "dom (rooms world_r1) = {room_key ''r1''}"
    by (simp add: world_r1_def)
  then have h4: "\<forall>k. k \<noteq> room_key ''r1'' \<longrightarrow> rooms world_r1 k \<noteq> Some 1"
    by (metis domI singletonD)
  have h5: "1 < next_ref world_r1" and h6: "o_players (objs world_r1 1) < next_ref world_r1"
    by (simp_all add: example_defs)
  note t = backends_agree_on_rooms [OF h1 world_r1_up h3, of "''r1''" 1 "''p2''" "''5''"]
  from t have a: "agree_from (\<lambda>w'. map_option (room_of w')) world_r1
        (getRoom ''r1'' world_r1) (getRoom_mock ''r1'' world_r1)"
    by (rule conjunct1)
  from t h4 h5 h6 have u: "agree_from (\<lambda>w' _. room_of w' 1) world_r1
        (updateRoom ''r1'' (room_of world_r1 1) world_r1) (updateRoom_mock ''r1'' 1 world_r1)"
    by blast
  from t have b: "agree_from (\<lambda>w'. map_option (room_of w')) world_r1
        (updatePlayerVote ''r1'' ''p2'' ''5'' world_r1)
        (updatePlayerVote_mock ''r1'' ''p2'' ''5'' world_r1)"
    and c: "agree_from (\<lambda>w'. map_option (room_of w')) world_r1
        (resetVotes ''r1'' world_r1) (resetVotes_mock ''r1'' world_r1)"
    by blast+
  from b have e: "\<exists>a b. fst (updatePlayerVote ''r1'' ''p2'' ''5'' world_r1) = Inr a
         \<and> fst (updatePlayerVote_mock ''r1'' ''p2'' ''5'' world_r1) = Inr b
         \<and> a = map_option
                 (room_of (snd (updatePlayerVote_mock ''r1'' ''p2'' ''5'' world_r1))) b"
    unfolding agree_from_def by (rule conjunct1)
  from h1 world_r1_up h3 d h5 h6 a u b e c show ?thesis by (intro conjI)
qed

subsection \<open>C9\<close>

text \<open>
  C9. The room-state fetch does not catch: with the backend of \<^verbatim>\<open>lib/redis.ts\<close> and a
  key-value service whose call fails, \<open>GET\<close> ends with the exception of the service,
  where the same failure under \<open>POST\<close> is answered with status 500.
\<close>

theorem GET_lets_store_failure_escape:
  "fst (GET True ''r1'' world_down) = Inl KvError
   \<and> fst (POST True ''r1'' (Some vote_p1) world_down)
       = Inr \<lparr>status = 500, json = ErrorJson ''Internal server error''\<rparr>"
  by (simp add: GET_def POST_def vote_p1_def world_down_def redis_defs io_defs example_defs)

subsection \<open>C10\<close>

text \<open>
  C10. The test of staleness is strict, in \<^verbatim>\<open>lib/redis.ts\<close> and in
  \<^verbatim>\<open>lib/redis-mock.ts\<close>: the participants that \<open>getRoom\<close> returns are exactly the stored
  ones with \<open>now - lastSeen < 300000\<close>, so a participant whose \<open>now - lastSeen\<close> is
  exactly 300000 milliseconds is pruned.
\<close>

theorem staleness_test_is_strict:
  assumes "kv w (room_key rid) = Some e"
    and "stored w (room_key rid) = Some g"
    and "\<forall>n. \<not> kv_fails w n"
    and "getRoom rid w = (r, w1)"
    and "getRoom_mock rid w = (r', w2)"
  shows "\<exists>room ref. r = Inr (Some room) \<and> r' = Inr (Some ref)
      \<and> (\<forall>p. p \<in> set (players room) \<longleftrightarrow>
                p \<in> set (players (val e)) \<and> clock w (tick w) - lastSeen p < 300000)
      \<and> (\<forall>p. p \<in> set (players (room_of w2 ref)) \<longleftrightarrow>
                p \<in> set (players g) \<and> clock w (tick w) - lastSeen p < 300000)
      \<and> (\<forall>p. clock w (tick w) - lastSeen p = 300000 \<longrightarrow>
                p \<notin> set (players room) \<and> p \<notin> set (players (room_of w2 ref)))"
proof -
  let ?fresh = "\<lambda>p. clock w (tick w) - lastSeen p < 300000"
  obtain room where r: "r = Inr (Some room)"
    and ps: "players room = filter ?fresh (players (val e))"
    using getRoom_present [OF assms(1) assms(3)] assms(4)
    by (auto simp: Let_def filter_length_eq split: if_splits)
  from assms(2) obtain ref where ref: "rooms w (room_key rid) = Some ref"
    and g: "g = room_of w ref"
    by (auto simp: stored_def)
  obtain w0 where run: "getRoom_mock rid w = (Inr (Some ref), w0)"
    and ps0: "players (room_of w0 ref) = filter ?fresh (players (room_of w ref))"
    by (rule getRoom_mock_ok [OF ref])
  from run assms(5) have r': "r' = Inr (Some ref)" and w2: "w2 = w0"
    by simp_all
  from ps0 have ps': "players (room_of w2 ref) = filter ?fresh (players g)"
    by (simp add: w2 g)
  show ?thesis using r r' ps ps' by auto
qed

theorem staleness_test_is_strict_witness:
  "kv world_r2 (room_key ''r2'') = Some \<lparr>val = room_r2, ex = Some 86400\<rparr>
   \<and> stored world_r2 (room_key ''r2'') = Some room_r2
   \<and> (\<forall>n. \<not> kv_fails world_r2 n)
   \<and> clock world_r2 (tick world_r2) - lastSeen player_p3 = 300000
   \<and> (\<exists>room ref. fst (getRoom ''r2'' world_r2) = Inr (Some room)
         \<and> fst (getRoom_mock ''r2'' world_r2) = Inr (Some ref)
         \<and> player_p3 \<notin> set (players room)
         \<and> player_p3 \<notin> set (players (room_of (snd (getRoom_mock ''r2'' world_r2)) ref))
         \<and> player_p4 \<in> set (players room)
         \<and> player_p4 \<in> set (players (room_of (snd (getRoom_mock ''r2'' world_r2)) ref)))"
proof -
  have h1: "kv world_r2 (room_key ''r2'') = Some \<lparr>val = room_r2, ex = Some 86400\<rparr>"
    and h3: "\<forall>n. \<not> kv_fails world_r2 n"
    by (simp_all add: world_r2_def)
  note h2 = world_r2_stored
  have edge: "clock world_r2 (tick world_r2) - lastSeen player_p3 = 300000"
    and young: "clock world_r2 (tick world_r2) - lastSeen player_p4 < 300000"
    by (simp_all add: world_r2_def player_p3_def player_p4_def)
  have mem: "player_p4 \<in> set (players (val \<lparr>val = room_r2, ex = Some 86400\<rparr>))"
    "player_p4 \<in> set (players room_r2)"
    by (simp_all add: room_r2_def)
  from staleness_test_is_strict [OF h1 h2 h3, of "fst (getRoom ''r2'' world_r2)"
      "snd (getRoom ''r2'' world_r2)" "fst (getRoom_mock ''r2'' world_r2)"
      "snd (getRoom_mock ''r2'' world_r2)"]
  obtain room ref where "fst (getRoom ''r2'' world_r2) = Inr (Some room)"
    "fst (getRoom_mock ''r2'' world_r2) = Inr (Some ref)"
    "player_p3 \<notin> set (players room)"
    "player_p3 \<notin> set (players (room_of (snd (getRoom_mock ''r2'' world_r2)) ref))"
    "player_p4 \<in> set (players room)"
    "player_p4 \<in> set (players (room_of (snd (getRoom_mock ''r2'' world_r2)) ref))"
    using edge young mem by auto
  with h1 h2 h3 edge show ?thesis by blast
qed

end
